theory Spec2Isabelle
  imports Main "HOL-Library.Word"
begin

unbundle bit_operations_syntax

section \<open>gpNvm: a non-volatile attribute store emulated on a file\<close>

text \<open>
  A shallow embedding of \<^verbatim>\<open>gpNvm.c\<close> and \<^verbatim>\<open>gpNvm.h\<close>. The four global variables of the C
  file, together with the file \<^verbatim>\<open>"gpNvm"\<close> they are persisted in, form one record that
  every operation takes and returns. An access outside an array, and a stream operation
  on a \<^verbatim>\<open>FILE*\<close> that has already been closed, are undefined behaviour in C; the model
  returns them as a \<open>fault\<close>.
\<close>

subsection \<open>Types and constants (gpNvm.h, gpNvm.c)\<close>

type_synonym UInt8 = "8 word"
type_synonym UInt16 = "16 word"
type_synonym gpNvm_AttrId = UInt8

datatype gpNvm_Result =
    GPNVM_OK
  | GPNVM_ERROR_OPENING_FILE
  | GPNVM_ERROR_ALREADY_INITIALIZED
  | GPNVM_ERROR_NOT_INITIALIZED
  | GPNVM_ERROR_INVALID_PARAMETERS
  | GPNVM_ERROR_INVALID_ATTRIBUTE_ID
  | GPNVM_ERROR_CORRUPTED_ATTRIBUTE
  | GPNVM_ERROR_MEMORY_FULL
  | GPNVM_ERROR_UNKNOWN

definition GPNVM_MEMORY_SIZE :: nat where
  "GPNVM_MEMORY_SIZE = 2048"

definition GPNVM_MEMORY_INDEX_TABLE_SIZE :: nat where
  "GPNVM_MEMORY_INDEX_TABLE_SIZE = 256"

definition GPNVM_ATTRIBUTES_CRCS_SIZE :: nat where
  "GPNVM_ATTRIBUTES_CRCS_SIZE = 256"

text \<open>\<^verbatim>\<open>sizeof(UInt16)\<close> is 2.\<close>

definition GPNVM_USER_MEMORY_SIZE :: nat where
  "GPNVM_USER_MEMORY_SIZE =
     GPNVM_MEMORY_SIZE - (2 * GPNVM_MEMORY_INDEX_TABLE_SIZE + GPNVM_ATTRIBUTES_CRCS_SIZE)"

text \<open>
  The value of the pointer \<^verbatim>\<open>gpNvm_FileDescriptor\<close>: \<^verbatim>\<open>NULL\<close>, the stream returned by
  \<^verbatim>\<open>fopen\<close>, or that same pointer after \<^verbatim>\<open>fclose\<close> (not \<^verbatim>\<open>NULL\<close>, and no longer usable).
\<close>

datatype file_handle = Null_handle | Open_handle | Closed_handle

datatype fault = OutOfBounds | UseAfterClose

text \<open>
  The arrays are functions of their index. \<^verbatim>\<open>gpNvm_MemoryIndexTable\<close> and
  \<^verbatim>\<open>gpNvm_AttributesCrcTable\<close> have 256 entries and are indexed by a byte. The cache
  \<^verbatim>\<open>gpNvm_MemoryCache\<close> has \<open>GPNVM_USER_MEMORY_SIZE\<close> entries; the operations check every
  index against that size before they use it, and nothing reads or writes the function
  beyond it. \<open>nvm_file\<close> is the content of the file \<^verbatim>\<open>"gpNvm"\<close>, \<open>None\<close> when the file does not
  exist, and \<open>nvm_creatable\<close> says whether \<^verbatim>\<open>fopen(.., "wb")\<close> can create it.
\<close>

record nvm =
  gpNvm_FileDescriptor :: file_handle
  gpNvm_MemoryCache :: "nat \<Rightarrow> UInt8"
  gpNvm_MemoryIndexTable :: "UInt8 \<Rightarrow> UInt16"
  gpNvm_AttributesCrcTable :: "UInt8 \<Rightarrow> UInt8"
  nvm_file :: "UInt8 list option"
  nvm_creatable :: bool

subsection \<open>gpNvm_CalculateChecksum\<close>

text \<open>The inner loop over \<open>j\<close>: \<open>n\<close> shifts of the CRC register, polynomial \<open>0x31\<close>.\<close>

fun crc_shift :: "nat \<Rightarrow> UInt8 \<Rightarrow> UInt8" where
  "crc_shift 0 crc = crc"
| "crc_shift (Suc j) crc =
     crc_shift j (if crc AND 0x80 \<noteq> 0 then push_bit 1 crc XOR 0x31 else push_bit 1 crc)"

text \<open>The outer loop over the bytes read through \<open>ptr\<close>.\<close>

fun crc_loop :: "UInt8 list \<Rightarrow> UInt8 \<Rightarrow> UInt8" where
  "crc_loop [] crc = crc"
| "crc_loop (b # bs) crc = crc_loop bs (crc_shift 8 (crc XOR b))"

text \<open>
  \<open>ptr\<close> is the memory the pointer refers to, from the pointer on; the function reads its
  first \<open>length'\<close> bytes (the parameter \<^verbatim>\<open>length\<close>). The callers make sure that many bytes are there.
\<close>

definition gpNvm_CalculateChecksum :: "UInt8 list \<Rightarrow> UInt8 \<Rightarrow> UInt8" where
  "gpNvm_CalculateChecksum ptr length' = crc_loop (take (unat length') ptr) 0xFF"

subsection \<open>Memory and file primitives\<close>

text \<open>The \<open>n\<close> bytes of the cache from index \<open>pos\<close> on.\<close>

definition region :: "(nat \<Rightarrow> UInt8) \<Rightarrow> nat \<Rightarrow> nat \<Rightarrow> UInt8 list" where
  "region mem pos n = map mem [pos..<pos + n]"

text \<open>\<^verbatim>\<open>memcpy(&mem[pos], src, n)\<close>, for a source of at least \<open>n\<close> bytes.\<close>

definition memcpy_to :: "(nat \<Rightarrow> UInt8) \<Rightarrow> nat \<Rightarrow> UInt8 list \<Rightarrow> nat \<Rightarrow> (nat \<Rightarrow> UInt8)" where
  "memcpy_to mem pos src n = (\<lambda>k. if pos \<le> k \<and> k < pos + n then src ! (k - pos) else mem k)"

text \<open>
  \<^verbatim>\<open>fseek(f, pos, SEEK_SET); fwrite(bytes, .., f)\<close>: the bytes replace the content from
  \<open>pos\<close> on; a gap between the end of the file and \<open>pos\<close> reads as zeros.
\<close>

definition fwrite_at :: "UInt8 list \<Rightarrow> nat \<Rightarrow> UInt8 list \<Rightarrow> UInt8 list" where
  "fwrite_at f pos bytes =
     take pos f @ replicate (pos - length f) 0 @ bytes @ drop (pos + length bytes) f"

text \<open>
  \<^verbatim>\<open>fseek(f, pos, SEEK_SET); fread(buf, .., f)\<close>: the bytes the file has from \<open>pos\<close> on
  overwrite the start of the buffer; where the file ends early the rest of the buffer
  keeps its old content (the code ignores the value \<^verbatim>\<open>fread\<close> returns).
\<close>

definition fread_at :: "UInt8 list \<Rightarrow> nat \<Rightarrow> UInt8 list \<Rightarrow> UInt8 list" where
  "fread_at f pos buf =
     take (length buf) (drop pos f) @ drop (length (take (length buf) (drop pos f))) buf"

text \<open>
  The arrays as the bytes \<^verbatim>\<open>fwrite\<close> sees and \<^verbatim>\<open>fread\<close> fills. A \<^verbatim>\<open>UInt16\<close> is stored low
  byte first (the byte order of the host the file is written and read on).
\<close>

definition index_table_bytes :: "(UInt8 \<Rightarrow> UInt16) \<Rightarrow> UInt8 list" where
  "index_table_bytes t =
     concat (map (\<lambda>i. [ucast (t (of_nat i)), ucast (drop_bit 8 (t (of_nat i)))])
       [0..<GPNVM_MEMORY_INDEX_TABLE_SIZE])"

definition index_table_of_bytes :: "UInt8 list \<Rightarrow> (UInt8 \<Rightarrow> UInt16)" where
  "index_table_of_bytes bs =
     (\<lambda>i. ucast (bs ! (2 * unat i)) OR push_bit 8 (ucast (bs ! (2 * unat i + 1))))"

definition crc_table_bytes :: "(UInt8 \<Rightarrow> UInt8) \<Rightarrow> UInt8 list" where
  "crc_table_bytes t = map (\<lambda>i. t (of_nat i)) [0..<GPNVM_ATTRIBUTES_CRCS_SIZE]"

definition crc_table_of_bytes :: "UInt8 list \<Rightarrow> (UInt8 \<Rightarrow> UInt8)" where
  "crc_table_of_bytes bs = (\<lambda>i. bs ! unat i)"

definition cache_bytes :: "(nat \<Rightarrow> UInt8) \<Rightarrow> UInt8 list" where
  "cache_bytes mem = region mem 0 GPNVM_USER_MEMORY_SIZE"

definition cache_of_bytes :: "UInt8 list \<Rightarrow> (nat \<Rightarrow> UInt8) \<Rightarrow> (nat \<Rightarrow> UInt8)" where
  "cache_of_bytes bs mem = (\<lambda>k. if k < GPNVM_USER_MEMORY_SIZE then bs ! k else mem k)"

definition file_content :: "nvm \<Rightarrow> UInt8 list" where
  "file_content s = (case nvm_file s of None \<Rightarrow> [] | Some f \<Rightarrow> f)"

text \<open>
  The three \<^verbatim>\<open>fseek\<close>/\<^verbatim>\<open>fwrite\<close> pairs that gpNvm_Init, gpNvm_Uninit and gpNvm_SetAttribute
  all repeat: the index table at offset 0, the CRC table behind it, the cache behind
  that.
\<close>

definition write_tables :: "nvm \<Rightarrow> nvm" where
  "write_tables s =
     s\<lparr>nvm_file := Some
         (fwrite_at
           (fwrite_at
             (fwrite_at (file_content s) 0 (index_table_bytes (gpNvm_MemoryIndexTable s)))
             (2 * GPNVM_MEMORY_INDEX_TABLE_SIZE)
             (crc_table_bytes (gpNvm_AttributesCrcTable s)))
           (2 * GPNVM_MEMORY_INDEX_TABLE_SIZE + GPNVM_ATTRIBUTES_CRCS_SIZE)
           (cache_bytes (gpNvm_MemoryCache s)))\<rparr>"

text \<open>The three \<^verbatim>\<open>fseek\<close>/\<^verbatim>\<open>fread\<close> pairs of gpNvm_Init.\<close>

definition read_tables :: "nvm \<Rightarrow> nvm" where
  "read_tables s =
     s\<lparr>gpNvm_MemoryIndexTable :=
         index_table_of_bytes
           (fread_at (file_content s) 0 (index_table_bytes (gpNvm_MemoryIndexTable s))),
       gpNvm_AttributesCrcTable :=
         crc_table_of_bytes
           (fread_at (file_content s) (2 * GPNVM_MEMORY_INDEX_TABLE_SIZE)
             (crc_table_bytes (gpNvm_AttributesCrcTable s))),
       gpNvm_MemoryCache :=
         cache_of_bytes
           (fread_at (file_content s)
             (2 * GPNVM_MEMORY_INDEX_TABLE_SIZE + GPNVM_ATTRIBUTES_CRCS_SIZE)
             (cache_bytes (gpNvm_MemoryCache s)))
           (gpNvm_MemoryCache s)\<rparr>"

text \<open>A write through the stream: undefined once the stream has been closed.\<close>

definition flush :: "nvm \<Rightarrow> fault + nvm" where
  "flush s = (if gpNvm_FileDescriptor s = Closed_handle then Inl UseAfterClose
              else Inr (write_tables s))"

subsection \<open>gpNvm_Init\<close>

text \<open>The three \<^verbatim>\<open>memset(.., 0xFF, ..)\<close> calls of the empty-file branch.\<close>

definition memset_tables :: "nvm \<Rightarrow> nvm" where
  "memset_tables s =
     s\<lparr>gpNvm_MemoryIndexTable := (\<lambda>i. 0xFFFF),
       gpNvm_AttributesCrcTable := (\<lambda>i. 0xFF),
       gpNvm_MemoryCache :=
         (\<lambda>k. if k < GPNVM_USER_MEMORY_SIZE then 0xFF else gpNvm_MemoryCache s k)\<rparr>"

text \<open>
  \<^verbatim>\<open>fopen(.., "r+b")\<close> succeeds when the file exists; otherwise \<^verbatim>\<open>fopen(.., "wb")\<close> creates
  it empty, or fails and the handle stays \<^verbatim>\<open>NULL\<close>. In the empty-file branch the source sets
  and writes one table after the other; a write depends on its own table only, so the
  model sets the three tables and then writes them. The load branch reads whatever the
  file has, without a check of its size or content. The file position that the closing
  \<^verbatim>\<open>fseek\<close> resets is not part of the state: every read and write seeks first.
\<close>

definition gpNvm_Init :: "nvm \<Rightarrow> fault + (gpNvm_Result \<times> nvm)" where
  "gpNvm_Init s =
     (if gpNvm_FileDescriptor s \<noteq> Null_handle then Inr (GPNVM_ERROR_ALREADY_INITIALIZED, s)
      else if nvm_file s = None \<and> \<not> nvm_creatable s then Inr (GPNVM_ERROR_OPENING_FILE, s)
      else
        let s1 = s\<lparr>gpNvm_FileDescriptor := Open_handle, nvm_file := Some (file_content s)\<rparr>
        in if length (file_content s1) = 0
           then Inr (GPNVM_OK, write_tables (memset_tables s1))
           else Inr (GPNVM_OK, read_tables s1))"

subsection \<open>gpNvm_Uninit\<close>

text \<open>
  The function writes the three tables and calls \<^verbatim>\<open>fclose\<close>. It does not assign \<^verbatim>\<open>NULL\<close> to
  \<^verbatim>\<open>gpNvm_FileDescriptor\<close>: the pointer keeps its value and refers to a closed stream.
\<close>

definition gpNvm_Uninit :: "nvm \<Rightarrow> fault + (gpNvm_Result \<times> nvm)" where
  "gpNvm_Uninit s =
     (if gpNvm_FileDescriptor s = Null_handle then Inr (GPNVM_ERROR_NOT_INITIALIZED, s)
      else case flush s of
        Inl f \<Rightarrow> Inl f
      | Inr s1 \<Rightarrow> Inr (GPNVM_OK, s1\<lparr>gpNvm_FileDescriptor := Closed_handle\<rparr>))"

subsection \<open>gpNvm_GetAttribute\<close>

text \<open>
  \<open>pLength\<close> and \<open>pValue\<close> are the caller's variable and buffer, \<open>None\<close> for a \<^verbatim>\<open>NULL\<close>
  pointer; the function returns them as it leaves them.
\<close>

definition gpNvm_GetAttribute ::
  "nvm \<Rightarrow> gpNvm_AttrId \<Rightarrow> UInt8 option \<Rightarrow> UInt8 list option
     \<Rightarrow> fault + (gpNvm_Result \<times> UInt8 option \<times> UInt8 list option)" where
  "gpNvm_GetAttribute s attrId pLength pValue =
     (if gpNvm_FileDescriptor s = Null_handle
      then Inr (GPNVM_ERROR_NOT_INITIALIZED, pLength, pValue)
      else if pLength = None \<or> pValue = None
      then Inr (GPNVM_ERROR_INVALID_PARAMETERS, pLength, pValue)
      else
        let attributeOffset = gpNvm_MemoryIndexTable s attrId in
        if attributeOffset = 0xFFFF
        then Inr (GPNVM_ERROR_INVALID_ATTRIBUTE_ID, pLength, pValue)
        else if GPNVM_USER_MEMORY_SIZE \<le> unat attributeOffset then Inl OutOfBounds
        else
          let attributeCrc = gpNvm_AttributesCrcTable s attrId;
              attributeLength = gpNvm_MemoryCache s (unat attributeOffset)
          in
          if GPNVM_USER_MEMORY_SIZE < unat attributeOffset + 1 + unat attributeLength
          then Inl OutOfBounds
          else if gpNvm_CalculateChecksum
                    (region (gpNvm_MemoryCache s) (unat attributeOffset + 1)
                       (unat attributeLength))
                    attributeLength \<noteq> attributeCrc
          then Inr (GPNVM_ERROR_CORRUPTED_ATTRIBUTE, pLength, pValue)
          else if length (the pValue) < unat attributeLength then Inl OutOfBounds
          else Inr (GPNVM_OK, Some attributeLength,
                 Some (region (gpNvm_MemoryCache s) (unat attributeOffset + 1)
                         (unat attributeLength)
                       @ drop (unat attributeLength) (the pValue))))"

subsection \<open>gpNvm_SetAttribute\<close>

text \<open>
  The loop over \<open>cpt\<close> that adds up the records already stored. \<open>attributeOffset\<close> is a
  \<^verbatim>\<open>UInt16\<close>: the sum wraps at \<open>2 ^ 16\<close>.
\<close>

function offset_loop :: "nvm \<Rightarrow> nat \<Rightarrow> UInt16 \<Rightarrow> fault + UInt16" where
  "offset_loop s cpt attributeOffset =
     (if cpt < GPNVM_MEMORY_INDEX_TABLE_SIZE then
        if gpNvm_MemoryIndexTable s (of_nat cpt) \<noteq> 0xFFFF then
          if GPNVM_USER_MEMORY_SIZE \<le> unat (gpNvm_MemoryIndexTable s (of_nat cpt))
          then Inl OutOfBounds
          else offset_loop s (Suc cpt)
                 (attributeOffset
                  + ucast (gpNvm_MemoryCache s (unat (gpNvm_MemoryIndexTable s (of_nat cpt))))
                  + 1)
        else offset_loop s (Suc cpt) attributeOffset
      else Inr attributeOffset)"
  by pat_completeness auto
termination
  by (relation "measure (\<lambda>(s, cpt, a). GPNVM_MEMORY_INDEX_TABLE_SIZE - cpt)") auto

declare offset_loop.simps [simp del]

text \<open>
  \<open>pValue\<close> is the caller's buffer, \<open>None\<close> for a \<^verbatim>\<open>NULL\<close> pointer; the function reads its
  first \<open>length'\<close> bytes (the parameter \<^verbatim>\<open>length\<close>). The update path compares them with the
  stored bytes (\<^verbatim>\<open>memcmp\<close>) and returns without a write when they are equal. The insert
  path stores the CRC entry first, then runs the loop, and compares the offset alone
  with the size of the cache; a record that starts inside the cache and ends outside it
  is copied all the same, which the model returns as \<open>OutOfBounds\<close>.
\<close>

definition gpNvm_SetAttribute ::
  "nvm \<Rightarrow> gpNvm_AttrId \<Rightarrow> UInt8 \<Rightarrow> UInt8 list option \<Rightarrow> fault + (gpNvm_Result \<times> nvm)" where
  "gpNvm_SetAttribute s attrId length' pValue =
     (if gpNvm_FileDescriptor s = Null_handle then Inr (GPNVM_ERROR_NOT_INITIALIZED, s)
      else case pValue of
        None \<Rightarrow> Inr (GPNVM_ERROR_INVALID_PARAMETERS, s)
      | Some buf \<Rightarrow>
        let attributeOffset = gpNvm_MemoryIndexTable s attrId in
        if attributeOffset \<noteq> 0xFFFF then
          if GPNVM_USER_MEMORY_SIZE \<le> unat attributeOffset then Inl OutOfBounds
          else
            let attributeLength = gpNvm_MemoryCache s (unat attributeOffset) in
            if length' \<noteq> attributeLength then Inr (GPNVM_ERROR_INVALID_PARAMETERS, s)
            else if length buf < unat length' then Inl OutOfBounds
            else if GPNVM_USER_MEMORY_SIZE < unat attributeOffset + 1 + unat length'
            then Inl OutOfBounds
            else if take (unat length') buf
                    = region (gpNvm_MemoryCache s) (unat attributeOffset + 1) (unat length')
            then Inr (GPNVM_OK, s)
            else
              case flush
                (s\<lparr>gpNvm_MemoryCache :=
                     memcpy_to (gpNvm_MemoryCache s) (unat attributeOffset + 1) buf
                       (unat length'),
                   gpNvm_AttributesCrcTable :=
                     (gpNvm_AttributesCrcTable s)
                       (attrId := gpNvm_CalculateChecksum buf length')\<rparr>)
              of Inl f \<Rightarrow> Inl f | Inr s1 \<Rightarrow> Inr (GPNVM_OK, s1)
        else
          if length buf < unat length' then Inl OutOfBounds
          else
            let s1 = s\<lparr>gpNvm_AttributesCrcTable :=
                        (gpNvm_AttributesCrcTable s)
                          (attrId := gpNvm_CalculateChecksum buf length')\<rparr>
            in
            case offset_loop s1 0 0 of
              Inl f \<Rightarrow> Inl f
            | Inr newOffset \<Rightarrow>
              if GPNVM_USER_MEMORY_SIZE \<le> unat newOffset
              then Inr (GPNVM_ERROR_MEMORY_FULL, s1)
              else if GPNVM_USER_MEMORY_SIZE < unat newOffset + 1 + unat length'
              then Inl OutOfBounds
              else
                case flush
                  (s1\<lparr>gpNvm_MemoryIndexTable :=
                        (gpNvm_MemoryIndexTable s1)(attrId := newOffset),
                      gpNvm_MemoryCache :=
                        memcpy_to ((gpNvm_MemoryCache s1)(unat newOffset := length'))
                          (unat newOffset + 1) buf (unat length')\<rparr>)
                of Inl f \<Rightarrow> Inl f | Inr s2 \<Rightarrow> Inr (GPNVM_OK, s2))"

subsection \<open>What is stored for an attribute\<close>

text \<open>
  The record of an attribute, read off the tables the way gpNvm_GetAttribute reads it: the
  offset in the index table, the length byte at that offset, the value bytes behind it.
\<close>

definition stored_offset :: "nvm \<Rightarrow> gpNvm_AttrId \<Rightarrow> nat" where
  "stored_offset s attrId = unat (gpNvm_MemoryIndexTable s attrId)"

definition stored_length :: "nvm \<Rightarrow> gpNvm_AttrId \<Rightarrow> UInt8" where
  "stored_length s attrId = gpNvm_MemoryCache s (stored_offset s attrId)"

definition stored_value :: "nvm \<Rightarrow> gpNvm_AttrId \<Rightarrow> UInt8 list" where
  "stored_value s attrId =
     region (gpNvm_MemoryCache s) (stored_offset s attrId + 1) (unat (stored_length s attrId))"

definition record_in_bounds :: "nvm \<Rightarrow> gpNvm_AttrId \<Rightarrow> bool" where
  "record_in_bounds s attrId \<longleftrightarrow>
     stored_offset s attrId + 1 + unat (stored_length s attrId) \<le> GPNVM_USER_MEMORY_SIZE"

subsection \<open>Example stores\<close>

text \<open>A process that has not called gpNvm_Init, with no file \<^verbatim>\<open>"gpNvm"\<close> on disk.\<close>

definition no_file :: nvm where
  "no_file = \<lparr>gpNvm_FileDescriptor = Null_handle, gpNvm_MemoryCache = (\<lambda>k. 0),
     gpNvm_MemoryIndexTable = (\<lambda>i. 0), gpNvm_AttributesCrcTable = (\<lambda>i. 0),
     nvm_file = None, nvm_creatable = True\<rparr>"

text \<open>
  An open store holding the one-byte value \<open>0xAA\<close> under id 0, and the same store with a
  CRC entry that does not match the value.
\<close>

definition one_record :: nvm where
  "one_record = \<lparr>gpNvm_FileDescriptor = Open_handle,
     gpNvm_MemoryCache = (\<lambda>k. if k = 0 then 1 else if k = 1 then 0xAA else 0xFF),
     gpNvm_MemoryIndexTable = (\<lambda>i. if i = 0 then 0 else 0xFFFF),
     gpNvm_AttributesCrcTable = (\<lambda>i. if i = 0 then 0x8B else 0xFF),
     nvm_file = Some [], nvm_creatable = True\<rparr>"

definition corrupt_record :: nvm where
  "corrupt_record = one_record\<lparr>gpNvm_AttributesCrcTable := (\<lambda>i. if i = 0 then 0 else 0xFF)\<rparr>"

text \<open>
  A store that holds nothing, every entry of the index table being \<open>0xFFFF\<close>.
\<close>

definition empty_store :: nvm where
  "empty_store = \<lparr>gpNvm_FileDescriptor = Open_handle,
     gpNvm_MemoryCache = (\<lambda>k. 0xFF),
     gpNvm_MemoryIndexTable = (\<lambda>i. 0xFFFF),
     gpNvm_AttributesCrcTable = (\<lambda>i. 0xFF),
     nvm_file = Some (replicate 2048 0xFF), nvm_creatable = True\<rparr>"

text \<open>
  The tables after gpNvm_Init on an empty file and five calls of gpNvm_SetAttribute, for
  the ids 0 to 4, each with 255 bytes \<open>0xFF\<close>: the five records fill the cache to its last
  byte. In the second store the fifth value is empty, so that one record of a single
  length byte sits at offset 1024 and 255 bytes are free.
\<close>

definition store_full :: nvm where
  "store_full = \<lparr>gpNvm_FileDescriptor = Open_handle,
     gpNvm_MemoryCache = (\<lambda>k. 0xFF),
     gpNvm_MemoryIndexTable = (\<lambda>i. if i < 5 then 256 * ucast i else 0xFFFF),
     gpNvm_AttributesCrcTable = (\<lambda>i. if i < 5 then 0 else 0xFF),
     nvm_file = Some [], nvm_creatable = True\<rparr>"

definition store_nearly_full :: nvm where
  "store_nearly_full = \<lparr>gpNvm_FileDescriptor = Open_handle,
     gpNvm_MemoryCache = (\<lambda>k. if k = 1024 then 0 else 0xFF),
     gpNvm_MemoryIndexTable = (\<lambda>i. if i < 5 then 256 * ucast i else 0xFFFF),
     gpNvm_AttributesCrcTable = (\<lambda>i. if i < 4 then 0 else 0xFF),
     nvm_file = Some [], nvm_creatable = True\<rparr>"

text \<open>
  One life of the component, from a process with no file: the store gpNvm_Init creates,
  that store after the one-byte value \<open>0xAA\<close> has been written under id 1, and that store
  after gpNvm_Uninit.
\<close>

definition fresh_store :: nvm where
  "fresh_store =
     write_tables (memset_tables
       (no_file\<lparr>gpNvm_FileDescriptor := Open_handle, nvm_file := Some []\<rparr>))"

definition one_stored :: nvm where
  "one_stored =
     write_tables
       (fresh_store\<lparr>gpNvm_AttributesCrcTable := (gpNvm_AttributesCrcTable fresh_store)(1 := 0x8B),
          gpNvm_MemoryIndexTable := (gpNvm_MemoryIndexTable fresh_store)(1 := 0),
          gpNvm_MemoryCache :=
            memcpy_to ((gpNvm_MemoryCache fresh_store)(0 := 1)) 1 [0xAA] 1\<rparr>)"

definition one_stored_closed :: nvm where
  "one_stored_closed = (write_tables one_stored)\<lparr>gpNvm_FileDescriptor := Closed_handle\<rparr>"

text \<open>
  A store whose index table gives the ids 0 and 1 the same offset, both CRC entries
  matching the value; and that store after the value of id 0 has been replaced by \<open>0xBB\<close>.
  gpNvm_Init loads such a file as it is.
\<close>

definition shared_record :: nvm where
  "shared_record = \<lparr>gpNvm_FileDescriptor = Open_handle,
     gpNvm_MemoryCache = (\<lambda>k. if k = 0 then 1 else if k = 1 then 0xAA else 0xFF),
     gpNvm_MemoryIndexTable = (\<lambda>i. if i = 0 \<or> i = 1 then 0 else 0xFFFF),
     gpNvm_AttributesCrcTable = (\<lambda>i. if i = 0 \<or> i = 1 then 0x8B else 0xFF),
     nvm_file = Some [], nvm_creatable = True\<rparr>"

definition shared_record_updated :: nvm where
  "shared_record_updated =
     write_tables
       (shared_record\<lparr>gpNvm_MemoryCache :=
            memcpy_to (gpNvm_MemoryCache shared_record) 1 [0xBB] 1,
          gpNvm_AttributesCrcTable := (gpNvm_AttributesCrcTable shared_record)(0 := 0xF9)\<rparr>)"

subsection \<open>The space the stored records take\<close>

text \<open>
  \<open>used_bytes\<close> is the next free offset the way the specification words it: the sum, over
  every id whose index entry is not \<open>0xFFFF\<close>, of one plus the length byte at that id's
  offset. \<open>record_size\<close> is the term one pass of the loop adds, and \<open>entry_in_bounds\<close> says
  that the pass reads inside the cache.
\<close>

definition record_size :: "nvm \<Rightarrow> gpNvm_AttrId \<Rightarrow> nat" where
  "record_size s i =
     (if gpNvm_MemoryIndexTable s i \<noteq> 0xFFFF
      then unat (gpNvm_MemoryCache s (unat (gpNvm_MemoryIndexTable s i))) + 1 else 0)"

definition entry_in_bounds :: "nvm \<Rightarrow> gpNvm_AttrId \<Rightarrow> bool" where
  "entry_in_bounds s i \<longleftrightarrow>
     gpNvm_MemoryIndexTable s i = 0xFFFF
     \<or> unat (gpNvm_MemoryIndexTable s i) < GPNVM_USER_MEMORY_SIZE"

definition used_bytes :: "nvm \<Rightarrow> nat" where
  "used_bytes s =
     (\<Sum>i | gpNvm_MemoryIndexTable s i \<noteq> 0xFFFF.
        1 + unat (gpNvm_MemoryCache s (unat (gpNvm_MemoryIndexTable s i))))"

section \<open>Properties\<close>

subsection \<open>Memory and file primitives\<close>

lemma user_memory_size: "GPNVM_USER_MEMORY_SIZE = 1280"
  by (simp add: GPNVM_USER_MEMORY_SIZE_def GPNVM_MEMORY_SIZE_def
      GPNVM_MEMORY_INDEX_TABLE_SIZE_def GPNVM_ATTRIBUTES_CRCS_SIZE_def)

lemma length_region [simp]: "length (region mem pos n) = n"
  by (simp add: region_def)

lemma nth_region [simp]: "k < n \<Longrightarrow> region mem pos n ! k = mem (pos + k)"
  by (simp add: region_def)

lemma region_cong: "(\<And>k. pos \<le> k \<Longrightarrow> k < pos + n \<Longrightarrow> m1 k = m2 k) \<Longrightarrow> region m1 pos n = region m2 pos n"
  by (simp add: region_def)

lemma region_memcpy_to: "n \<le> length src \<Longrightarrow> region (memcpy_to mem pos src n) pos n = take n src"
  by (rule nth_equalityI) (simp_all add: memcpy_to_def)

lemma memcpy_to_outside: "k < pos \<or> pos + n \<le> k \<Longrightarrow> memcpy_to mem pos src n k = mem k"
  by (auto simp: memcpy_to_def)

lemma write_tables_fields [simp]:
  "gpNvm_FileDescriptor (write_tables s) = gpNvm_FileDescriptor s"
  "gpNvm_MemoryCache (write_tables s) = gpNvm_MemoryCache s"
  "gpNvm_MemoryIndexTable (write_tables s) = gpNvm_MemoryIndexTable s"
  "gpNvm_AttributesCrcTable (write_tables s) = gpNvm_AttributesCrcTable s"
  "nvm_creatable (write_tables s) = nvm_creatable s"
  by (simp_all add: write_tables_def)

lemma checksum_empty: "gpNvm_CalculateChecksum ptr 0 = 0xFF"
  by (simp add: gpNvm_CalculateChecksum_def)

lemma table_sizes [simp]:
  "GPNVM_MEMORY_INDEX_TABLE_SIZE = 256" "GPNVM_ATTRIBUTES_CRCS_SIZE = 256" "GPNVM_MEMORY_SIZE = 2048"
  by (simp_all add: GPNVM_MEMORY_SIZE_def GPNVM_MEMORY_INDEX_TABLE_SIZE_def GPNVM_ATTRIBUTES_CRCS_SIZE_def)

lemma length_concat_pairs: "length (concat (map (\<lambda>i. [a i, b i]) xs)) = 2 * length xs"
  by (induction xs) simp_all

lemma nth_concat_pairs:
  "k < n \<Longrightarrow> concat (map (\<lambda>i. [a i, b i]) [0..<n]) ! (2 * k) = a k
     \<and> concat (map (\<lambda>i. [a i, b i]) [0..<n]) ! (2 * k + 1) = b k"
proof (induction n)
  case 0
  then show ?case by simp
next
  case (Suc n)
  show ?case
  proof (cases "k < n")
    case True
    with Suc.IH show ?thesis
      by (simp add: nth_append length_concat_pairs)
  next
    case False
    with Suc.prems have "k = n" by simp
    then show ?thesis
      by (simp add: nth_append length_concat_pairs)
  qed
qed

lemma length_index_table_bytes [simp]: "length (index_table_bytes t) = 512"
  by (simp add: index_table_bytes_def length_concat_pairs)

lemma length_crc_table_bytes [simp]: "length (crc_table_bytes t) = 256"
  by (simp add: crc_table_bytes_def)

lemma length_cache_bytes [simp]: "length (cache_bytes mem) = 1280"
  by (simp add: cache_bytes_def user_memory_size)

lemma UInt16_bytes: "ucast (ucast w :: UInt8) OR push_bit 8 (ucast (ucast (drop_bit 8 w) :: UInt8)) = (w :: UInt16)"
  by (rule bit_word_eqI) (auto simp: bit_simps)

lemma index_table_roundtrip: "index_table_of_bytes (index_table_bytes t) = t"
proof
  fix i :: UInt8
  let ?lo = "\<lambda>i. ucast (t (of_nat i)) :: UInt8"
  let ?hi = "\<lambda>i. ucast (drop_bit 8 (t (of_nat i))) :: UInt8"
  let ?bs = "concat (map (\<lambda>i. [?lo i, ?hi i]) [0..<256])"
  have "unat i < 256" using unsigned_less [of i, where ?'a = nat] by simp
  then have "?bs ! (2 * unat i) = ?lo (unat i)" and "?bs ! (2 * unat i + 1) = ?hi (unat i)"
    using nth_concat_pairs [of "unat i" 256 ?lo ?hi] by blast+
  then have "index_table_of_bytes ?bs i
      = ucast (ucast (t i) :: UInt8) OR push_bit 8 (ucast (ucast (drop_bit 8 (t i)) :: UInt8))"
    unfolding index_table_of_bytes_def by simp
  then show "index_table_of_bytes (index_table_bytes t) i = t i"
    by (simp add: index_table_bytes_def UInt16_bytes)
qed

lemma crc_table_roundtrip: "crc_table_of_bytes (crc_table_bytes t) = t"
proof
  fix i :: UInt8
  have "unat i < 256" using unsigned_less [of i, where ?'a = nat] by simp
  then show "crc_table_of_bytes (crc_table_bytes t) i = t i"
    by (simp add: crc_table_of_bytes_def crc_table_bytes_def)
qed

lemma cache_roundtrip: "k < GPNVM_USER_MEMORY_SIZE \<Longrightarrow> cache_of_bytes (cache_bytes mem) old k = mem k"
  by (simp add: cache_of_bytes_def cache_bytes_def)

lemma fwrite_at_append: "pos = length a \<Longrightarrow> fwrite_at (a @ r) pos bs = a @ bs @ drop (length bs) r"
  by (simp add: fwrite_at_def)

lemma fwrite_at_0: "fwrite_at f 0 bs = bs @ drop (length bs) f"
  by (simp add: fwrite_at_def)

lemma nvm_file_write_tables:
  "nvm_file (write_tables s) =
     Some (index_table_bytes (gpNvm_MemoryIndexTable s)
           @ crc_table_bytes (gpNvm_AttributesCrcTable s)
           @ cache_bytes (gpNvm_MemoryCache s)
           @ drop GPNVM_MEMORY_SIZE (file_content s))"
proof -
  let ?i = "index_table_bytes (gpNvm_MemoryIndexTable s)"
  let ?c = "crc_table_bytes (gpNvm_AttributesCrcTable s)"
  let ?m = "cache_bytes (gpNvm_MemoryCache s)"
  let ?f = "file_content s"
  have 1: "fwrite_at ?f 0 ?i = ?i @ drop 512 ?f"
    by (simp add: fwrite_at_0)
  have 2: "fwrite_at (?i @ drop 512 ?f) 512 ?c = ?i @ ?c @ drop 768 ?f"
    by (simp add: fwrite_at_append)
  have 3: "fwrite_at ((?i @ ?c) @ drop 768 ?f) 768 ?m = (?i @ ?c) @ ?m @ drop 2048 ?f"
    by (subst fwrite_at_append) simp_all
  show ?thesis
    using 1 2 3 by (simp add: write_tables_def)
qed

lemma fread_at_full:
  "length buf = n \<Longrightarrow> pos + n \<le> length f \<Longrightarrow> fread_at f pos buf = take n (drop pos f)"
  by (simp add: fread_at_def)

lemma memset_tables_fields [simp]:
  "gpNvm_FileDescriptor (memset_tables s) = gpNvm_FileDescriptor s"
  "gpNvm_MemoryIndexTable (memset_tables s) = (\<lambda>i. 0xFFFF)"
  "gpNvm_AttributesCrcTable (memset_tables s) = (\<lambda>i. 0xFF)"
  "nvm_file (memset_tables s) = nvm_file s"
  by (simp_all add: memset_tables_def)

lemma memset_tables_cache: "k < GPNVM_USER_MEMORY_SIZE \<Longrightarrow> gpNvm_MemoryCache (memset_tables s) k = 0xFF"
  by (simp add: memset_tables_def)

lemma file_content_memset [simp]: "file_content (memset_tables s) = file_content s"
  by (simp add: file_content_def)

lemma concat_const_pairs: "concat (map (\<lambda>i. [x, x]) xs) = replicate (2 * length xs) x"
  by (induction xs) simp_all

lemma index_table_bytes_sentinel: "index_table_bytes (\<lambda>i. 0xFFFF) = replicate 512 0xFF"
proof -
  have "(ucast (0xFFFF :: UInt16) :: UInt8) = 0xFF"
    and "(ucast (drop_bit 8 (0xFFFF :: UInt16)) :: UInt8) = 0xFF"
    by simp_all
  then have "index_table_bytes (\<lambda>i. 0xFFFF)
      = concat (map (\<lambda>i. [0xFF, 0xFF]) [0..<GPNVM_MEMORY_INDEX_TABLE_SIZE])"
    unfolding index_table_bytes_def by (simp only:)
  then show ?thesis
    by (simp only: concat_const_pairs) simp
qed

lemma crc_table_bytes_default: "crc_table_bytes (\<lambda>i. 0xFF) = replicate 256 0xFF"
  by (rule nth_equalityI) (simp_all add: crc_table_bytes_def)

lemma cache_bytes_filled:
  "(\<And>k. k < GPNVM_USER_MEMORY_SIZE \<Longrightarrow> mem k = 0xFF) \<Longrightarrow> cache_bytes mem = replicate 1280 0xFF"
  by (rule nth_equalityI) (simp_all add: cache_bytes_def user_memory_size)

lemma gpNvm_Init_empty:
  assumes "gpNvm_FileDescriptor s = Null_handle"
    and "file_content s = []"
    and "nvm_file s \<noteq> None \<or> nvm_creatable s"
  shows "gpNvm_Init s = Inr (GPNVM_OK,
           write_tables (memset_tables
             (s\<lparr>gpNvm_FileDescriptor := Open_handle, nvm_file := Some []\<rparr>)))"
  using assms by (auto simp: gpNvm_Init_def file_content_def Let_def)

lemma one_record_facts:
  "gpNvm_FileDescriptor one_record \<noteq> Null_handle"
  "gpNvm_MemoryIndexTable one_record 0 \<noteq> 0xFFFF"
  "record_in_bounds one_record 0"
  "stored_length one_record 0 = 1"
  "stored_value one_record 0 = [0xAA]"
  "gpNvm_AttributesCrcTable one_record 0 = 0x8B"
  by (simp_all add: one_record_def stored_offset_def stored_length_def stored_value_def
      record_in_bounds_def user_memory_size region_def)

lemma corrupt_record_facts:
  "gpNvm_FileDescriptor corrupt_record \<noteq> Null_handle"
  "gpNvm_MemoryIndexTable corrupt_record 0 \<noteq> 0xFFFF"
  "record_in_bounds corrupt_record 0"
  "stored_length corrupt_record 0 = 1"
  "stored_value corrupt_record 0 = [0xAA]"
  "gpNvm_AttributesCrcTable corrupt_record 0 = 0"
  by (simp_all add: corrupt_record_def one_record_def stored_offset_def stored_length_def
      stored_value_def record_in_bounds_def user_memory_size region_def)

lemma checksum_AA: "gpNvm_CalculateChecksum [0xAA] 1 = 0x8B"
  by code_simp

subsection \<open>The offset loop\<close>

lemma interval_split: "cpt < n \<Longrightarrow> {cpt..<n} = insert cpt {Suc cpt..<n}"
  by auto

lemma offset_loop_eq:
  "cpt \<le> 256 \<Longrightarrow>
   offset_loop s cpt acc =
     (if \<forall>i\<in>{cpt..<256}. entry_in_bounds s (of_nat i)
      then Inr (acc + of_nat (\<Sum>i = cpt..<256. record_size s (of_nat i)))
      else Inl OutOfBounds)"
proof (induction "256 - cpt" arbitrary: cpt acc)
  case 0
  then have "cpt = 256" by simp
  then show ?case
    by (subst offset_loop.simps) simp
next
  case (Suc n)
  then have lt: "cpt < 256" and n: "n = 256 - Suc cpt" and le: "Suc cpt \<le> 256"
    by simp_all
  note IH = Suc.hyps(1) [OF n le]
  have up: "(ucast (b :: UInt8) :: UInt16) = of_nat (unat b)" for b
    by simp
  show ?case
    apply (subst offset_loop.simps)
    apply (simp only: interval_split [OF lt] sum.atLeast_Suc_lessThan [OF lt] up)
    using lt
    apply (auto simp add: IH entry_in_bounds_def record_size_def linorder_not_less
        simp del: of_nat_unat)
    done
qed

lemma sum_over_ids:
  "(\<Sum>i = 0..<256. g (of_nat i :: UInt8)) = (\<Sum>i\<in>UNIV. g i)"
proof -
  have U: "(UNIV :: UInt8 set) = of_nat ` {0..<256}"
    using UNIV_word_eq_word_of_nat [where ?'a = 8] by simp
  have I: "inj_on (of_nat :: nat \<Rightarrow> UInt8) {0..<256}"
    using inj_on_word_of_nat [where ?'a = 8] by simp
  have "sum g (of_nat ` {0..<256}) = sum (g \<circ> of_nat) {0..<256}"
    using I by (rule sum.reindex)
  then show ?thesis
    unfolding U [symmetric] by (simp add: comp_def)
qed

lemma used_bytes_sum: "used_bytes s = (\<Sum>i = 0..<256. record_size s (of_nat i))"
proof -
  have "used_bytes s = (\<Sum>i\<in>UNIV. record_size s i)"
    unfolding used_bytes_def record_size_def
    by (subst sum.inter_filter [symmetric]) (simp_all add: add.commute)
  then show ?thesis
    by (simp add: sum_over_ids)
qed

lemma record_size_le: "record_size s i \<le> 256"
proof -
  have "unat (gpNvm_MemoryCache s (unat (gpNvm_MemoryIndexTable s i))) < 256"
    using unsigned_less [of "gpNvm_MemoryCache s (unat (gpNvm_MemoryIndexTable s i))", where ?'a = nat]
    by simp
  then show ?thesis by (simp add: record_size_def)
qed

lemma used_bytes_absent:
  assumes "gpNvm_MemoryIndexTable s attrId = 0xFFFF"
  shows "used_bytes s < 65536"
proof -
  have "used_bytes s = (\<Sum>i\<in>UNIV. record_size s i)"
    by (simp add: used_bytes_sum sum_over_ids)
  also have "\<dots> = (\<Sum>i\<in>UNIV - {attrId}. record_size s i)"
    using assms by (intro sum.mono_neutral_right) (auto simp: record_size_def)
  also have "\<dots> \<le> (\<Sum>i\<in>UNIV - {attrId}. 256)"
    by (intro sum_mono record_size_le)
  also have "\<dots> = 255 * 256"
    by (simp add: card_Diff_singleton card_word)
  finally show ?thesis by simp
qed

lemma offset_loop_used:
  "offset_loop s 0 0 =
     (if \<forall>i. entry_in_bounds s i then Inr (of_nat (used_bytes s)) else Inl OutOfBounds)"
proof -
  have "(\<forall>i\<in>{0..<256}. entry_in_bounds s (of_nat i)) \<longleftrightarrow> (\<forall>i. entry_in_bounds s i)"
  proof
    assume a: "\<forall>i\<in>{0..<256}. entry_in_bounds s (of_nat i)"
    show "\<forall>i. entry_in_bounds s i"
    proof
      fix i :: UInt8
      have "unat i \<in> {0..<256}"
        using unsigned_less [of i, where ?'a = nat] by simp
      with a have "entry_in_bounds s (of_nat (unat i))" by blast
      then show "entry_in_bounds s i" by simp
    qed
  qed simp
  then show ?thesis
    using offset_loop_eq [of 0 s 0] by (simp add: used_bytes_sum)
qed

lemma used_bytes_crc [simp]:
  "used_bytes (s\<lparr>gpNvm_AttributesCrcTable := c\<rparr>) = used_bytes s"
  by (simp add: used_bytes_def)

lemma entry_in_bounds_crc [simp]:
  "entry_in_bounds (s\<lparr>gpNvm_AttributesCrcTable := c\<rparr>) = entry_in_bounds s"
  by (rule ext) (simp add: entry_in_bounds_def)

lemma unat_used_bytes:
  "gpNvm_MemoryIndexTable s attrId = 0xFFFF \<Longrightarrow> unat (of_nat (used_bytes s) :: UInt16) = used_bytes s"
  using used_bytes_absent [of s attrId] by (simp add: unat_of_nat)

lemma used_from_loop:
  assumes "offset_loop s 0 0 = Inr r" and "gpNvm_MemoryIndexTable s attrId = 0xFFFF"
  shows "(\<forall>i. entry_in_bounds s i) \<and> used_bytes s = unat r"
proof -
  from assms(1) have all: "\<forall>i. entry_in_bounds s i" and r: "r = of_nat (used_bytes s)"
    unfolding offset_loop_used by (auto split: if_splits)
  from r unat_used_bytes [OF assms(2)] all show ?thesis by simp
qed

subsection \<open>The paths of gpNvm_GetAttribute and gpNvm_SetAttribute\<close>

lemma flush_Inr: "flush s = Inr t \<longleftrightarrow> gpNvm_FileDescriptor s \<noteq> Closed_handle \<and> t = write_tables s"
  by (auto simp: flush_def)

lemma checksum_take:
  "gpNvm_CalculateChecksum (take (unat len) buf) len = gpNvm_CalculateChecksum buf len"
  by (simp add: gpNvm_CalculateChecksum_def)

lemma in_bounds_not_sentinel: "unat (w :: UInt16) < GPNVM_USER_MEMORY_SIZE \<Longrightarrow> w \<noteq> 0xFFFF"
  by (auto simp: user_memory_size)

lemma get_stored:
  assumes "gpNvm_FileDescriptor s \<noteq> Null_handle"
    and "gpNvm_MemoryIndexTable s attrId \<noteq> 0xFFFF"
    and "record_in_bounds s attrId"
  shows "gpNvm_GetAttribute s attrId (Some l) (Some out) =
     (if gpNvm_CalculateChecksum (stored_value s attrId) (stored_length s attrId)
           \<noteq> gpNvm_AttributesCrcTable s attrId
      then Inr (GPNVM_ERROR_CORRUPTED_ATTRIBUTE, Some l, Some out)
      else if length out < unat (stored_length s attrId) then Inl OutOfBounds
      else Inr (GPNVM_OK, Some (stored_length s attrId),
             Some (stored_value s attrId @ drop (unat (stored_length s attrId)) out)))"
  using assms
  by (auto simp: gpNvm_GetAttribute_def stored_offset_def stored_length_def stored_value_def
      record_in_bounds_def Let_def)

lemma set_update:
  assumes "gpNvm_FileDescriptor s \<noteq> Null_handle"
    and "gpNvm_MemoryIndexTable s attrId \<noteq> 0xFFFF"
  shows "gpNvm_SetAttribute s attrId len (Some buf) =
     (if GPNVM_USER_MEMORY_SIZE \<le> stored_offset s attrId then Inl OutOfBounds
      else if len \<noteq> stored_length s attrId then Inr (GPNVM_ERROR_INVALID_PARAMETERS, s)
      else if length buf < unat len then Inl OutOfBounds
      else if GPNVM_USER_MEMORY_SIZE < stored_offset s attrId + 1 + unat len then Inl OutOfBounds
      else if take (unat len) buf = stored_value s attrId then Inr (GPNVM_OK, s)
      else if gpNvm_FileDescriptor s = Closed_handle then Inl UseAfterClose
      else Inr (GPNVM_OK, write_tables
             (s\<lparr>gpNvm_MemoryCache :=
                  memcpy_to (gpNvm_MemoryCache s) (stored_offset s attrId + 1) buf (unat len),
                gpNvm_AttributesCrcTable :=
                  (gpNvm_AttributesCrcTable s)(attrId := gpNvm_CalculateChecksum buf len)\<rparr>)))"
  using assms
  by (auto simp: gpNvm_SetAttribute_def stored_offset_def stored_length_def stored_value_def
      Let_def flush_def)

lemma set_insert:
  assumes "gpNvm_FileDescriptor s \<noteq> Null_handle"
    and "gpNvm_MemoryIndexTable s attrId = 0xFFFF"
  shows "gpNvm_SetAttribute s attrId len (Some buf) =
     (if length buf < unat len then Inl OutOfBounds
      else if \<not> (\<forall>i. entry_in_bounds s i) then Inl OutOfBounds
      else if GPNVM_USER_MEMORY_SIZE \<le> used_bytes s
      then Inr (GPNVM_ERROR_MEMORY_FULL,
             s\<lparr>gpNvm_AttributesCrcTable :=
                 (gpNvm_AttributesCrcTable s)(attrId := gpNvm_CalculateChecksum buf len)\<rparr>)
      else if GPNVM_USER_MEMORY_SIZE < used_bytes s + 1 + unat len then Inl OutOfBounds
      else if gpNvm_FileDescriptor s = Closed_handle then Inl UseAfterClose
      else Inr (GPNVM_OK, write_tables
             (s\<lparr>gpNvm_AttributesCrcTable :=
                  (gpNvm_AttributesCrcTable s)(attrId := gpNvm_CalculateChecksum buf len),
                gpNvm_MemoryIndexTable :=
                  (gpNvm_MemoryIndexTable s)(attrId := of_nat (used_bytes s)),
                gpNvm_MemoryCache :=
                  memcpy_to ((gpNvm_MemoryCache s)(used_bytes s := len))
                    (used_bytes s + 1) buf (unat len)\<rparr>)))"
  using assms unat_used_bytes [OF assms(2)]
  by (auto simp: gpNvm_SetAttribute_def Let_def flush_def offset_loop_used)

lemma set_ok_open:
  "gpNvm_SetAttribute s attrId len (Some buf) = Inr (GPNVM_OK, s1) \<Longrightarrow>
   gpNvm_FileDescriptor s \<noteq> Null_handle"
  by (auto simp: gpNvm_SetAttribute_def)

lemma set_ok_update:
  assumes "gpNvm_SetAttribute s attrId len (Some buf) = Inr (GPNVM_OK, s1)"
    and "gpNvm_MemoryIndexTable s attrId \<noteq> 0xFFFF"
  shows "record_in_bounds s attrId \<and> stored_length s attrId = len \<and> unat len \<le> length buf
     \<and> (if take (unat len) buf = stored_value s attrId then s1 = s
         else gpNvm_FileDescriptor s = Open_handle
           \<and> s1 = write_tables
               (s\<lparr>gpNvm_MemoryCache :=
                    memcpy_to (gpNvm_MemoryCache s) (stored_offset s attrId + 1) buf (unat len),
                  gpNvm_AttributesCrcTable :=
                    (gpNvm_AttributesCrcTable s)(attrId := gpNvm_CalculateChecksum buf len)\<rparr>))"
proof -
  have op: "gpNvm_FileDescriptor s \<noteq> Null_handle"
    using assms(1) by (rule set_ok_open)
  show ?thesis
    using assms(1) op
    unfolding set_update [OF op assms(2)] record_in_bounds_def
    by (cases "gpNvm_FileDescriptor s") (auto split: if_splits)
qed

lemma set_ok_insert:
  assumes "gpNvm_SetAttribute s attrId len (Some buf) = Inr (GPNVM_OK, s1)"
    and "gpNvm_MemoryIndexTable s attrId = 0xFFFF"
  shows "used_bytes s + 1 + unat len \<le> GPNVM_USER_MEMORY_SIZE \<and> unat len \<le> length buf
     \<and> (\<forall>i. entry_in_bounds s i)
     \<and> gpNvm_FileDescriptor s = Open_handle
     \<and> s1 = write_tables
         (s\<lparr>gpNvm_AttributesCrcTable :=
              (gpNvm_AttributesCrcTable s)(attrId := gpNvm_CalculateChecksum buf len),
            gpNvm_MemoryIndexTable :=
              (gpNvm_MemoryIndexTable s)(attrId := of_nat (used_bytes s)),
            gpNvm_MemoryCache :=
              memcpy_to ((gpNvm_MemoryCache s)(used_bytes s := len))
                (used_bytes s + 1) buf (unat len)\<rparr>)"
proof -
  have op: "gpNvm_FileDescriptor s \<noteq> Null_handle"
    using assms(1) by (rule set_ok_open)
  show ?thesis
    using assms(1) op
    unfolding set_insert [OF op assms(2)]
    by (cases "gpNvm_FileDescriptor s") (auto split: if_splits)
qed

lemma set_ok_stored:
  assumes "gpNvm_SetAttribute s attrId len (Some buf) = Inr (GPNVM_OK, s1)"
  shows "gpNvm_FileDescriptor s1 \<noteq> Null_handle"
    and "gpNvm_MemoryIndexTable s1 attrId \<noteq> 0xFFFF"
    and "record_in_bounds s1 attrId"
    and "stored_length s1 attrId = len"
    and "stored_value s1 attrId = take (unat len) buf"
    and "unat len \<le> length buf"
proof -
  have op: "gpNvm_FileDescriptor s \<noteq> Null_handle"
    using assms by (rule set_ok_open)
  have "gpNvm_FileDescriptor s1 \<noteq> Null_handle
      \<and> gpNvm_MemoryIndexTable s1 attrId \<noteq> 0xFFFF
      \<and> record_in_bounds s1 attrId
      \<and> stored_length s1 attrId = len
      \<and> stored_value s1 attrId = take (unat len) buf
      \<and> unat len \<le> length buf"
  proof (cases "gpNvm_MemoryIndexTable s attrId = 0xFFFF")
    case True
    note ins = set_ok_insert [OF assms True]
    let ?u = "used_bytes s"
    from ins have fits: "?u + 1 + unat len \<le> GPNVM_USER_MEMORY_SIZE" and le: "unat len \<le> length buf"
      by simp_all
    have u: "unat (of_nat ?u :: UInt16) = ?u"
      using True by (rule unat_used_bytes)
    have off: "stored_offset s1 attrId = ?u"
      using ins u by (simp add: stored_offset_def)
    have ns: "gpNvm_MemoryIndexTable s1 attrId \<noteq> 0xFFFF"
      using off fits by (intro in_bounds_not_sentinel) (simp add: stored_offset_def)
    have cache: "gpNvm_MemoryCache s1
        = memcpy_to ((gpNvm_MemoryCache s)(?u := len)) (?u + 1) buf (unat len)"
      using ins by simp
    have len: "stored_length s1 attrId = len"
      unfolding stored_length_def off cache by (simp add: memcpy_to_outside)
    have val: "stored_value s1 attrId = take (unat len) buf"
      unfolding stored_value_def off len cache using le by (simp add: region_memcpy_to)
    have fd1: "gpNvm_FileDescriptor s1 \<noteq> Null_handle"
      using ins by simp
    have rb: "record_in_bounds s1 attrId"
      unfolding record_in_bounds_def off len using fits by simp
    show ?thesis
      using fd1 ns rb len val le by simp
  next
    case False
    note upd = set_ok_update [OF assms False]
    show ?thesis
    proof (cases "take (unat len) buf = stored_value s attrId")
      case True
      with upd have "s1 = s" by simp
      with upd op False True show ?thesis by simp
    next
      case diff: False
      with upd have s1: "s1 = write_tables
               (s\<lparr>gpNvm_MemoryCache :=
                    memcpy_to (gpNvm_MemoryCache s) (stored_offset s attrId + 1) buf (unat len),
                  gpNvm_AttributesCrcTable :=
                    (gpNvm_AttributesCrcTable s)(attrId := gpNvm_CalculateChecksum buf len)\<rparr>)"
        by simp
      from upd have le: "unat len \<le> length buf" and sl: "stored_length s attrId = len"
        and rb: "record_in_bounds s attrId"
        by simp_all
      have off: "stored_offset s1 attrId = stored_offset s attrId"
        by (simp add: s1 stored_offset_def)
      have cache: "gpNvm_MemoryCache s1
          = memcpy_to (gpNvm_MemoryCache s) (stored_offset s attrId + 1) buf (unat len)"
        by (simp add: s1)
      have len: "stored_length s1 attrId = len"
        unfolding stored_length_def off cache using sl
        by (simp add: memcpy_to_outside stored_length_def)
      have val: "stored_value s1 attrId = take (unat len) buf"
        unfolding stored_value_def off len cache using le by (simp add: region_memcpy_to)
      have "gpNvm_MemoryIndexTable s1 attrId \<noteq> 0xFFFF"
        using False by (simp add: s1)
      moreover have "gpNvm_FileDescriptor s1 \<noteq> Null_handle"
        using op by (simp add: s1)
      moreover have "record_in_bounds s1 attrId"
        unfolding record_in_bounds_def off len using rb sl by (simp add: record_in_bounds_def)
      ultimately show ?thesis
        using len val le by simp
    qed
  qed
  then show "gpNvm_FileDescriptor s1 \<noteq> Null_handle"
    and "gpNvm_MemoryIndexTable s1 attrId \<noteq> 0xFFFF"
    and "record_in_bounds s1 attrId"
    and "stored_length s1 attrId = len"
    and "stored_value s1 attrId = take (unat len) buf"
    and "unat len \<le> length buf"
    by simp_all
qed

lemma set_ok_crc:
  assumes "gpNvm_SetAttribute s attrId len (Some buf) = Inr (GPNVM_OK, s1)"
  shows "gpNvm_AttributesCrcTable s1 attrId =
     (if gpNvm_MemoryIndexTable s attrId \<noteq> 0xFFFF \<and> take (unat len) buf = stored_value s attrId
      then gpNvm_AttributesCrcTable s attrId
      else gpNvm_CalculateChecksum buf len)"
proof (cases "gpNvm_MemoryIndexTable s attrId = 0xFFFF")
  case True
  from set_ok_insert [OF assms True] show ?thesis
    using True by simp
next
  case False
  from set_ok_update [OF assms False] show ?thesis
    using False by (auto split: if_splits)
qed

lemma get_cong:
  assumes "gpNvm_FileDescriptor s \<noteq> Null_handle" and "gpNvm_FileDescriptor t \<noteq> Null_handle"
    and idx: "gpNvm_MemoryIndexTable s = gpNvm_MemoryIndexTable t"
    and crc: "gpNvm_AttributesCrcTable s = gpNvm_AttributesCrcTable t"
    and cache: "\<And>k. k < GPNVM_USER_MEMORY_SIZE \<Longrightarrow> gpNvm_MemoryCache s k = gpNvm_MemoryCache t k"
  shows "gpNvm_GetAttribute s attrId pLength pValue = gpNvm_GetAttribute t attrId pLength pValue"
proof -
  let ?off = "unat (gpNvm_MemoryIndexTable t attrId)"
  have len: "gpNvm_MemoryCache s ?off = gpNvm_MemoryCache t ?off" if "?off < GPNVM_USER_MEMORY_SIZE"
    using that by (rule cache)
  have reg: "region (gpNvm_MemoryCache s) (Suc ?off) n = region (gpNvm_MemoryCache t) (Suc ?off) n"
    if "?off + 1 + n \<le> GPNVM_USER_MEMORY_SIZE" for n
    using that by (intro region_cong cache) simp
  show ?thesis
  proof (cases "?off < GPNVM_USER_MEMORY_SIZE")
    case False
    then show ?thesis
      using assms(1,2) by (simp add: gpNvm_GetAttribute_def idx crc Let_def)
  next
    case True
    note l = len [OF True]
    show ?thesis
    proof (cases "?off + 1 + unat (gpNvm_MemoryCache t ?off) \<le> GPNVM_USER_MEMORY_SIZE")
      case False
      then show ?thesis
        using assms(1,2) True by (simp add: gpNvm_GetAttribute_def idx crc Let_def l)
    next
      case fits: True
      show ?thesis
        using assms(1,2) True fits
        by (simp add: gpNvm_GetAttribute_def idx crc Let_def l reg [OF fits])
    qed
  qed
qed

subsection \<open>Closing and reopening\<close>

lemma uninit_ok:
  assumes "gpNvm_Uninit s = Inr (GPNVM_OK, s2)"
  shows "gpNvm_FileDescriptor s = Open_handle"
    and "s2 = (write_tables s)\<lparr>gpNvm_FileDescriptor := Closed_handle\<rparr>"
  using assms
  by (cases "gpNvm_FileDescriptor s"; auto simp: gpNvm_Uninit_def flush_def)+

lemma uninit_open:
  "gpNvm_FileDescriptor s = Open_handle \<Longrightarrow>
   gpNvm_Uninit s = Inr (GPNVM_OK, (write_tables s)\<lparr>gpNvm_FileDescriptor := Closed_handle\<rparr>)"
  by (simp add: gpNvm_Uninit_def flush_def)

lemma init_load:
  assumes "gpNvm_FileDescriptor s = Null_handle" and "nvm_file s = Some f" and "f \<noteq> []"
  shows "gpNvm_Init s = Inr (GPNVM_OK,
           read_tables (s\<lparr>gpNvm_FileDescriptor := Open_handle, nvm_file := Some f\<rparr>))"
  using assms by (simp add: gpNvm_Init_def file_content_def Let_def)

lemma read_tables_fd [simp]: "gpNvm_FileDescriptor (read_tables s) = gpNvm_FileDescriptor s"
  by (simp add: read_tables_def)

lemma read_tables_written:
  assumes "file_content s = index_table_bytes t @ crc_table_bytes c @ cache_bytes m @ rest"
  shows "gpNvm_MemoryIndexTable (read_tables s) = t"
    and "gpNvm_AttributesCrcTable (read_tables s) = c"
    and "k < GPNVM_USER_MEMORY_SIZE \<Longrightarrow> gpNvm_MemoryCache (read_tables s) k = m k"
proof -
  let ?f = "file_content s"
  have 1: "fread_at ?f 0 (index_table_bytes (gpNvm_MemoryIndexTable s)) = index_table_bytes t"
    by (subst fread_at_full [where n = 512]) (simp_all add: assms)
  have 2: "fread_at ?f 512 (crc_table_bytes (gpNvm_AttributesCrcTable s)) = crc_table_bytes c"
    by (subst fread_at_full [where n = 256]) (simp_all add: assms)
  have 3: "fread_at ?f 768 (cache_bytes (gpNvm_MemoryCache s)) = cache_bytes m"
    by (subst fread_at_full [where n = 1280]) (simp_all add: assms)
  show "gpNvm_MemoryIndexTable (read_tables s) = t"
    by (simp add: read_tables_def 1 index_table_roundtrip)
  show "gpNvm_AttributesCrcTable (read_tables s) = c"
    by (simp add: read_tables_def 2 crc_table_roundtrip)
  show "gpNvm_MemoryCache (read_tables s) k = m k" if "k < GPNVM_USER_MEMORY_SIZE"
    using that by (simp add: read_tables_def 3 cache_roundtrip)
qed

lemma init_reload:
  assumes "gpNvm_FileDescriptor s1 = Open_handle"
    and "gpNvm_FileDescriptor s3 = Null_handle"
    and "nvm_file s3 = nvm_file ((write_tables s1)\<lparr>gpNvm_FileDescriptor := Closed_handle\<rparr>)"
  shows "gpNvm_Init s3 = Inr (GPNVM_OK,
           read_tables (s3\<lparr>gpNvm_FileDescriptor := Open_handle,
             nvm_file := Some (file_content s3)\<rparr>))"
    and "gpNvm_GetAttribute
           (read_tables (s3\<lparr>gpNvm_FileDescriptor := Open_handle,
             nvm_file := Some (file_content s3)\<rparr>)) attrId pLength pValue
         = gpNvm_GetAttribute s1 attrId pLength pValue"
proof -
  let ?f = "index_table_bytes (gpNvm_MemoryIndexTable s1)
           @ crc_table_bytes (gpNvm_AttributesCrcTable s1)
           @ cache_bytes (gpNvm_MemoryCache s1)
           @ drop GPNVM_MEMORY_SIZE (file_content s1)"
  let ?s = "s3\<lparr>gpNvm_FileDescriptor := Open_handle, nvm_file := Some (file_content s3)\<rparr>"
  have f3: "nvm_file s3 = Some ?f"
    using assms(3) by (simp add: nvm_file_write_tables)
  then have fc3: "file_content s3 = ?f"
    by (simp add: file_content_def)
  have ne: "?f \<noteq> []"
  proof
    assume "?f = []"
    then have "length ?f = 0" by (simp only: list.size)
    then show False by simp
  qed
  show "gpNvm_Init s3 = Inr (GPNVM_OK, read_tables ?s)"
    unfolding fc3 using assms(2) f3 ne by (rule init_load)
  have "file_content ?s = file_content s3"
    by (simp add: file_content_def)
  then have fc: "file_content ?s = ?f"
    by (simp only: fc3)
  note rt = read_tables_written [OF fc]
  show "gpNvm_GetAttribute (read_tables ?s) attrId pLength pValue
      = gpNvm_GetAttribute s1 attrId pLength pValue"
  proof (rule get_cong)
    show "gpNvm_FileDescriptor (read_tables ?s) \<noteq> Null_handle"
      by simp
    show "gpNvm_FileDescriptor s1 \<noteq> Null_handle"
      using assms(1) by simp
    show "gpNvm_MemoryIndexTable (read_tables ?s) = gpNvm_MemoryIndexTable s1"
      by (rule rt(1))
    show "gpNvm_AttributesCrcTable (read_tables ?s) = gpNvm_AttributesCrcTable s1"
      by (rule rt(2))
    show "gpNvm_MemoryCache (read_tables ?s) k = gpNvm_MemoryCache s1 k"
      if "k < GPNVM_USER_MEMORY_SIZE" for k
      using that by (rule rt(3))
  qed
qed

text \<open>
  What gpNvm_Uninit writes is enough to restore the attribute: a gpNvm_Init that starts
  with \<open>gpNvm_FileDescriptor\<close> \<open>NULL\<close> on that file returns \<open>GPNVM_OK\<close>, and gpNvm_GetAttribute
  then returns the value (where the value was already stored and nothing was written,
  provided the CRC entry matched).
\<close>

lemma reload_after_restart:
  assumes "length v \<le> 255"
    and "gpNvm_SetAttribute s attrId (of_nat (length v)) (Some v) = Inr (GPNVM_OK, s1)"
    and "gpNvm_MemoryIndexTable s attrId \<noteq> 0xFFFF \<and> v = stored_value s attrId
         \<longrightarrow> gpNvm_CalculateChecksum (stored_value s attrId) (stored_length s attrId)
             = gpNvm_AttributesCrcTable s attrId"
    and "gpNvm_Uninit s1 = Inr (GPNVM_OK, s2)"
    and "gpNvm_FileDescriptor s3 = Null_handle"
    and "nvm_file s3 = nvm_file s2"
    and "length v \<le> length out"
  shows "\<exists>s4. gpNvm_Init s3 = Inr (GPNVM_OK, s4)
     \<and> gpNvm_GetAttribute s4 attrId (Some l) (Some out)
         = Inr (GPNVM_OK, Some (of_nat (length v)), Some (v @ drop (length v) out))"
proof -
  let ?len = "of_nat (length v) :: UInt8"
  have n: "unat ?len = length v"
    using assms(1) by (simp add: unat_of_nat)
  note st = set_ok_stored [OF assms(2)]
  have val: "stored_value s1 attrId = v" and len: "stored_length s1 attrId = ?len"
    using st(4,5) n by simp_all
  have crc: "gpNvm_CalculateChecksum v ?len = gpNvm_AttributesCrcTable s1 attrId"
  proof (cases "gpNvm_MemoryIndexTable s attrId \<noteq> 0xFFFF \<and> v = stored_value s attrId")
    case True
    then have "stored_length s attrId = ?len"
      using set_ok_update [OF assms(2)] by simp
    with True assms(3) set_ok_crc [OF assms(2)] n show ?thesis by simp
  next
    case False
    with set_ok_crc [OF assms(2)] n show ?thesis by auto
  qed
  have get1: "gpNvm_GetAttribute s1 attrId (Some l) (Some out)
      = Inr (GPNVM_OK, Some ?len, Some (v @ drop (length v) out))"
    using crc assms(7) n by (simp add: get_stored [OF st(1-3)] val len)
  note un = uninit_ok [OF assms(4)]
  have file3: "nvm_file s3 = nvm_file ((write_tables s1)\<lparr>gpNvm_FileDescriptor := Closed_handle\<rparr>)"
    using assms(6) un(2) by simp
  note re = init_reload [OF un(1) assms(5) file3]
  show ?thesis
    using re(1) re(2) [of attrId "Some l" "Some out"] get1 by simp
qed

subsection \<open>The example stores\<close>

lemma one_record_open: "gpNvm_FileDescriptor one_record = Open_handle"
  by (simp add: one_record_def)

lemma empty_store_facts:
  "gpNvm_FileDescriptor empty_store = Open_handle"
  "gpNvm_MemoryIndexTable empty_store i = 0xFFFF"
  by (simp_all add: empty_store_def)

lemma loop_one_record: "offset_loop one_record 0 0 = Inr 2"
  by code_simp

lemma loop_store_full: "offset_loop store_full 0 0 = Inr 1280"
  by code_simp

lemma loop_store_nearly_full: "offset_loop store_nearly_full 0 0 = Inr 1025"
  by code_simp

lemma checksum_00: "gpNvm_CalculateChecksum [0] 1 = 0xAC"
  by code_simp

lemma checksum_BB: "gpNvm_CalculateChecksum [0xBB] 1 = 0xF9"
  by code_simp

lemma set_one_record_same:
  "gpNvm_SetAttribute one_record 0 1 (Some [0xAA]) = Inr (GPNVM_OK, one_record)"
  using one_record_facts(3)
  by (simp add: set_update [OF one_record_facts(1,2)] one_record_facts(4,5) record_in_bounds_def)

lemma fresh_store_facts:
  "gpNvm_FileDescriptor fresh_store = Open_handle"
  "gpNvm_MemoryIndexTable fresh_store i = 0xFFFF"
  by (simp_all add: fresh_store_def)

lemma init_no_file: "gpNvm_Init no_file = Inr (GPNVM_OK, fresh_store)"
  unfolding fresh_store_def
  by (rule gpNvm_Init_empty) (simp_all add: no_file_def file_content_def)

lemma set_fresh_store:
  "gpNvm_SetAttribute fresh_store 1 1 (Some [0xAA]) = Inr (GPNVM_OK, one_stored)"
proof -
  have u: "used_bytes fresh_store = 0"
    by (simp add: used_bytes_def fresh_store_facts)
  have b: "\<forall>i. entry_in_bounds fresh_store i"
    by (simp add: entry_in_bounds_def fresh_store_facts)
  have op: "gpNvm_FileDescriptor fresh_store \<noteq> Null_handle"
    by (simp add: fresh_store_facts)
  show ?thesis
    using b by (simp add: set_insert [OF op fresh_store_facts(2)] u user_memory_size
        checksum_AA fresh_store_facts(1) one_stored_def)
qed

lemma one_stored_facts:
  "gpNvm_FileDescriptor one_stored = Open_handle"
  "gpNvm_MemoryIndexTable one_stored 1 \<noteq> 0xFFFF"
  "record_in_bounds one_stored 1"
  "stored_length one_stored 1 = 1"
  "stored_value one_stored 1 = [0xAA]"
  "gpNvm_AttributesCrcTable one_stored 1 = 0x8B"
  by (simp_all add: one_stored_def fresh_store_facts stored_offset_def stored_length_def
      stored_value_def record_in_bounds_def user_memory_size region_def memcpy_to_def)

lemma shared_record_facts:
  "gpNvm_FileDescriptor shared_record = Open_handle"
  "gpNvm_MemoryIndexTable shared_record 0 \<noteq> 0xFFFF"
  "gpNvm_MemoryIndexTable shared_record 1 \<noteq> 0xFFFF"
  "stored_offset shared_record 0 = 0"
  "stored_length shared_record 0 = 1"
  "stored_value shared_record 0 = [0xAA]"
  "stored_value shared_record 1 = [0xAA]"
  by (simp_all add: shared_record_def stored_offset_def stored_length_def stored_value_def
      region_def)

lemma shared_record_updated_facts:
  "gpNvm_FileDescriptor shared_record_updated \<noteq> Null_handle"
  "gpNvm_MemoryIndexTable shared_record_updated 1 \<noteq> 0xFFFF"
  "record_in_bounds shared_record_updated 1"
  "stored_length shared_record_updated 1 = 1"
  "stored_value shared_record_updated 1 = [0xBB]"
  "gpNvm_AttributesCrcTable shared_record_updated 1 = 0x8B"
  by (simp_all add: shared_record_updated_def shared_record_def stored_offset_def
      stored_length_def stored_value_def record_in_bounds_def user_memory_size region_def
      memcpy_to_def)

subsection \<open>Claims\<close>

text \<open>
  C1. The check that guards an insert compares the next free offset alone with the size of
  the cache, after the CRC entry has been written. On the full store an insert of one
  byte (next free offset 1280) returns \<open>GPNVM_ERROR_MEMORY_FULL\<close>, and the CRC entry of
  the id has changed from \<open>0xFF\<close> to \<open>0xAC\<close>. On the store with 255 bytes free an insert
  of 255 bytes (next free offset 1025, so 1281 bytes would be needed) is not refused:
  the copy runs past the end of the cache.
\<close>

theorem memory_full_check_misses:
  "gpNvm_FileDescriptor store_full = Open_handle
   \<and> gpNvm_MemoryIndexTable store_full 5 = 0xFFFF
   \<and> offset_loop store_full 0 0 = Inr 1280
   \<and> GPNVM_USER_MEMORY_SIZE < 1280 + 1 + 1
   \<and> gpNvm_SetAttribute store_full 5 1 (Some [0])
       = Inr (GPNVM_ERROR_MEMORY_FULL,
           store_full\<lparr>gpNvm_AttributesCrcTable :=
             (gpNvm_AttributesCrcTable store_full)(5 := 0xAC)\<rparr>)
   \<and> gpNvm_AttributesCrcTable store_full 5 = 0xFF
   \<and> gpNvm_FileDescriptor store_nearly_full = Open_handle
   \<and> gpNvm_MemoryIndexTable store_nearly_full 5 = 0xFFFF
   \<and> offset_loop store_nearly_full 0 0 = Inr 1025
   \<and> GPNVM_USER_MEMORY_SIZE < 1025 + 1 + 255
   \<and> gpNvm_SetAttribute store_nearly_full 5 255 (Some (replicate 255 0)) = Inl OutOfBounds"
proof -
  have f: "gpNvm_FileDescriptor store_full = Open_handle"
    "gpNvm_MemoryIndexTable store_full 5 = 0xFFFF"
    "gpNvm_AttributesCrcTable store_full 5 = 0xFF"
    by (simp_all add: store_full_def)
  have n: "gpNvm_FileDescriptor store_nearly_full = Open_handle"
    "gpNvm_MemoryIndexTable store_nearly_full 5 = 0xFFFF"
    by (simp_all add: store_nearly_full_def)
  note uf = used_from_loop [OF loop_store_full f(2)]
  note un = used_from_loop [OF loop_store_nearly_full n(2)]
  have 1: "gpNvm_SetAttribute store_full 5 1 (Some [0])
       = Inr (GPNVM_ERROR_MEMORY_FULL,
           store_full\<lparr>gpNvm_AttributesCrcTable :=
             (gpNvm_AttributesCrcTable store_full)(5 := 0xAC)\<rparr>)"
    using uf f(1) by (simp add: set_insert [OF _ f(2)] user_memory_size checksum_00)
  have 2: "gpNvm_SetAttribute store_nearly_full 5 255 (Some (replicate 255 0)) = Inl OutOfBounds"
    using un n(1) by (simp add: set_insert [OF _ n(2)] user_memory_size)
  show ?thesis
    using f n 1 2 loop_store_full loop_store_nearly_full by (simp add: user_memory_size)
qed

text \<open>
  C2 (as amended). If gpNvm_SetAttribute returns \<open>GPNVM_OK\<close> for a value \<open>v\<close> of at most 255
  bytes, and, in the case where \<open>v\<close> is the value already stored under the id (the call
  then writes nothing), the CRC entry of the id matches the stored bytes, then a
  following gpNvm_GetAttribute into a buffer of at least \<open>length v\<close> bytes returns
  \<open>GPNVM_OK\<close>, the length of \<open>v\<close>, and \<open>v\<close> at the start of the buffer.
\<close>

theorem set_then_get_roundtrip:
  assumes "length v \<le> 255"
    and "gpNvm_SetAttribute s attrId (of_nat (length v)) (Some v) = Inr (GPNVM_OK, s1)"
    and "gpNvm_MemoryIndexTable s attrId \<noteq> 0xFFFF \<and> v = stored_value s attrId
         \<longrightarrow> gpNvm_CalculateChecksum (stored_value s attrId) (stored_length s attrId)
             = gpNvm_AttributesCrcTable s attrId"
    and "length v \<le> length out"
  shows "gpNvm_GetAttribute s1 attrId (Some l) (Some out)
     = Inr (GPNVM_OK, Some (of_nat (length v)), Some (v @ drop (length v) out))"
proof -
  let ?len = "of_nat (length v) :: UInt8"
  have n: "unat ?len = length v"
    using assms(1) by (simp add: unat_of_nat)
  note st = set_ok_stored [OF assms(2)]
  have val: "stored_value s1 attrId = v" and len: "stored_length s1 attrId = ?len"
    using st(4,5) n by simp_all
  have crc: "gpNvm_CalculateChecksum v ?len = gpNvm_AttributesCrcTable s1 attrId"
  proof (cases "gpNvm_MemoryIndexTable s attrId \<noteq> 0xFFFF \<and> v = stored_value s attrId")
    case True
    then have "stored_length s attrId = ?len"
      using set_ok_update [OF assms(2)] by simp
    with True assms(3) set_ok_crc [OF assms(2)] n show ?thesis by simp
  next
    case False
    with set_ok_crc [OF assms(2)] n show ?thesis by auto
  qed
  show ?thesis
    using crc assms(4) n
    by (simp add: get_stored [OF st(1-3)] val len)
qed

theorem set_then_get_roundtrip_witness:
  "length [0xAA :: UInt8] \<le> 255
   \<and> gpNvm_SetAttribute one_record 0 (of_nat (length [0xAA :: UInt8])) (Some [0xAA])
       = Inr (GPNVM_OK, one_record)
   \<and> gpNvm_MemoryIndexTable one_record 0 \<noteq> 0xFFFF
   \<and> [0xAA] = stored_value one_record 0
   \<and> gpNvm_CalculateChecksum (stored_value one_record 0) (stored_length one_record 0)
       = gpNvm_AttributesCrcTable one_record 0
   \<and> length [0xAA :: UInt8] \<le> length [0, 0 :: UInt8]
   \<and> gpNvm_GetAttribute one_record 0 (Some 0) (Some [0, 0]) = Inr (GPNVM_OK, Some 1, Some [0xAA, 0])"
proof -
  have a: "length [0xAA :: UInt8] \<le> 255" by simp
  have b: "gpNvm_SetAttribute one_record 0 (of_nat (length [0xAA :: UInt8])) (Some [0xAA])
       = Inr (GPNVM_OK, one_record)"
    using set_one_record_same by simp
  have c: "gpNvm_CalculateChecksum (stored_value one_record 0) (stored_length one_record 0)
       = gpNvm_AttributesCrcTable one_record 0"
    by (simp add: one_record_facts checksum_AA)
  have d: "length [0xAA :: UInt8] \<le> length [0, 0 :: UInt8]" by simp
  show ?thesis
    using a b c d set_then_get_roundtrip [OF a b _ d, of 0] one_record_facts(2,5)
    by simp
qed

text \<open>
  C2 as stated fails on a store whose CRC entry does not match: writing the bytes that are
  already stored returns \<open>GPNVM_OK\<close> and changes nothing, and the read that follows
  returns \<open>GPNVM_ERROR_CORRUPTED_ATTRIBUTE\<close>.
\<close>

theorem roundtrip_fails_on_corrupt_record:
  "gpNvm_FileDescriptor corrupt_record = Open_handle
   \<and> length [0xAA :: UInt8] \<le> 255
   \<and> gpNvm_SetAttribute corrupt_record 0 (of_nat (length [0xAA :: UInt8])) (Some [0xAA])
       = Inr (GPNVM_OK, corrupt_record)
   \<and> gpNvm_GetAttribute corrupt_record 0 (Some 0) (Some [0])
       = Inr (GPNVM_ERROR_CORRUPTED_ATTRIBUTE, Some 0, Some [0])"
proof -
  have "gpNvm_FileDescriptor corrupt_record = Open_handle"
    by (simp add: corrupt_record_def one_record_def)
  moreover have "gpNvm_SetAttribute corrupt_record 0 1 (Some [0xAA]) = Inr (GPNVM_OK, corrupt_record)"
    using corrupt_record_facts(3)
    by (simp add: set_update [OF corrupt_record_facts(1,2)] corrupt_record_facts(4,5)
        record_in_bounds_def)
  moreover have "gpNvm_GetAttribute corrupt_record 0 (Some 0) (Some [0])
       = Inr (GPNVM_ERROR_CORRUPTED_ATTRIBUTE, Some 0, Some [0])"
    by (simp add: get_stored [OF corrupt_record_facts(1-3)] corrupt_record_facts(4-6) checksum_AA)
  ultimately show ?thesis by simp
qed

text \<open>
  C3. For a stored attribute (its index entry is not \<open>0xFFFF\<close> and lies inside the cache), a
  gpNvm_SetAttribute whose length differs from the stored length byte returns
  \<open>GPNVM_ERROR_INVALID_PARAMETERS\<close> and returns the store as it was: index table, CRC table,
  cache and file are unchanged.
\<close>

theorem set_length_mismatch_rejected:
  assumes "gpNvm_FileDescriptor s \<noteq> Null_handle"
    and "gpNvm_MemoryIndexTable s attrId \<noteq> 0xFFFF"
    and "stored_offset s attrId < GPNVM_USER_MEMORY_SIZE"
    and "len \<noteq> stored_length s attrId"
  shows "gpNvm_SetAttribute s attrId len (Some v) = Inr (GPNVM_ERROR_INVALID_PARAMETERS, s)"
  using assms by (simp add: gpNvm_SetAttribute_def stored_offset_def stored_length_def)

theorem set_length_mismatch_rejected_witness:
  "gpNvm_FileDescriptor one_record \<noteq> Null_handle
   \<and> gpNvm_MemoryIndexTable one_record 0 \<noteq> 0xFFFF
   \<and> stored_offset one_record 0 < GPNVM_USER_MEMORY_SIZE
   \<and> 2 \<noteq> stored_length one_record 0
   \<and> gpNvm_SetAttribute one_record 0 2 (Some [1, 2])
       = Inr (GPNVM_ERROR_INVALID_PARAMETERS, one_record)"
proof -
  have h: "gpNvm_FileDescriptor one_record \<noteq> Null_handle"
    "gpNvm_MemoryIndexTable one_record 0 \<noteq> 0xFFFF"
    "stored_offset one_record 0 < GPNVM_USER_MEMORY_SIZE"
    "2 \<noteq> stored_length one_record 0"
    by (simp_all add: one_record_def stored_offset_def stored_length_def user_memory_size)
  show ?thesis
    using h set_length_mismatch_rejected [OF h, of "[1, 2]"] by simp
qed

text \<open>
  C4. For a stored attribute whose record lies inside the cache, gpNvm_SetAttribute with
  the stored length and bytes equal to the stored value returns \<open>GPNVM_OK\<close> and the store
  it was given: no table and not the file has changed. And whenever a call of
  gpNvm_SetAttribute has returned \<open>GPNVM_OK\<close>, the same call again returns \<open>GPNVM_OK\<close> and
  leaves the tables and the file as the first call left them.
\<close>

theorem identical_set_writes_nothing:
  "(gpNvm_FileDescriptor s \<noteq> Null_handle \<and> gpNvm_MemoryIndexTable s attrId \<noteq> 0xFFFF
      \<and> record_in_bounds s attrId \<and> len = stored_length s attrId
      \<and> take (unat len) buf = stored_value s attrId
    \<longrightarrow> gpNvm_SetAttribute s attrId len (Some buf) = Inr (GPNVM_OK, s))
   \<and> (gpNvm_SetAttribute s attrId len (Some buf) = Inr (GPNVM_OK, s1)
    \<longrightarrow> gpNvm_SetAttribute s1 attrId len (Some buf) = Inr (GPNVM_OK, s1))"
proof -
  have same: "gpNvm_SetAttribute t attrId len (Some buf) = Inr (GPNVM_OK, t)"
    if "gpNvm_FileDescriptor t \<noteq> Null_handle" "gpNvm_MemoryIndexTable t attrId \<noteq> 0xFFFF"
      "record_in_bounds t attrId" "len = stored_length t attrId"
      "take (unat len) buf = stored_value t attrId" for t
  proof -
    have "length (stored_value t attrId) = unat len"
      using that(4) by (simp add: stored_value_def)
    with that(5) have "length (take (unat len) buf) = unat len"
      by simp
    then have "unat len \<le> length buf"
      by simp
    with that show ?thesis
      by (simp add: set_update record_in_bounds_def)
  qed
  have again: "gpNvm_SetAttribute s1 attrId len (Some buf) = Inr (GPNVM_OK, s1)"
    if ok: "gpNvm_SetAttribute s attrId len (Some buf) = Inr (GPNVM_OK, s1)"
    using set_ok_stored [OF ok] by (intro same) simp_all
  from same [of s] again show ?thesis by blast
qed

theorem identical_set_writes_nothing_witness:
  "gpNvm_FileDescriptor one_record \<noteq> Null_handle
   \<and> gpNvm_MemoryIndexTable one_record 0 \<noteq> 0xFFFF
   \<and> record_in_bounds one_record 0
   \<and> 1 = stored_length one_record 0
   \<and> take (unat (1 :: UInt8)) [0xAA] = stored_value one_record 0
   \<and> gpNvm_SetAttribute one_record 0 1 (Some [0xAA]) = Inr (GPNVM_OK, one_record)"
  using identical_set_writes_nothing [of one_record 0 1 "[0xAA]" one_record]
  by (simp add: one_record_facts)

text \<open>
  C5. For a stored attribute whose record lies inside the cache: when the checksum computed
  over the stored value differs from the CRC entry, gpNvm_GetAttribute returns
  \<open>GPNVM_ERROR_CORRUPTED_ATTRIBUTE\<close> and leaves the caller's length variable and buffer as
  they were; when it matches (and the buffer is large enough), it returns \<open>GPNVM_OK\<close>, the
  stored length, and the stored value at the start of the buffer.
\<close>

theorem get_verifies_checksum:
  assumes "gpNvm_FileDescriptor s \<noteq> Null_handle"
    and "gpNvm_MemoryIndexTable s attrId \<noteq> 0xFFFF"
    and "record_in_bounds s attrId"
  shows "(gpNvm_CalculateChecksum (stored_value s attrId) (stored_length s attrId)
            \<noteq> gpNvm_AttributesCrcTable s attrId
          \<longrightarrow> gpNvm_GetAttribute s attrId (Some l) (Some out)
              = Inr (GPNVM_ERROR_CORRUPTED_ATTRIBUTE, Some l, Some out))
       \<and> (gpNvm_CalculateChecksum (stored_value s attrId) (stored_length s attrId)
            = gpNvm_AttributesCrcTable s attrId
          \<and> unat (stored_length s attrId) \<le> length out
          \<longrightarrow> gpNvm_GetAttribute s attrId (Some l) (Some out)
              = Inr (GPNVM_OK, Some (stored_length s attrId),
                  Some (stored_value s attrId @ drop (unat (stored_length s attrId)) out)))"
  using assms
  by (auto simp: gpNvm_GetAttribute_def stored_offset_def stored_length_def stored_value_def
      record_in_bounds_def Let_def)

theorem get_verifies_checksum_witness:
  "gpNvm_GetAttribute corrupt_record 0 (Some 7) (Some [1, 2, 3])
     = Inr (GPNVM_ERROR_CORRUPTED_ATTRIBUTE, Some 7, Some [1, 2, 3])
   \<and> gpNvm_GetAttribute one_record 0 (Some 7) (Some [1, 2, 3])
     = Inr (GPNVM_OK, Some 1, Some [0xAA, 2, 3])"
  using get_verifies_checksum [OF corrupt_record_facts(1-3), of 7 "[1, 2, 3]"]
    get_verifies_checksum [OF one_record_facts(1-3), of 7 "[1, 2, 3]"]
  by (simp add: one_record_facts corrupt_record_facts checksum_AA)

text \<open>
  C6. When gpNvm_SetAttribute inserts an attribute (its index entry was \<open>0xFFFF\<close> and the
  call returns \<open>GPNVM_OK\<close>), the offset it stores in the index table is \<open>used_bytes\<close> of the
  store before the call; the 16-bit sum of the loop cannot wrap, since at most 255 ids
  are stored. In particular, in an open store that holds nothing, the insert of 20
  bytes under one id gets offset 0, and a following insert under another id gets
  offset 21.
\<close>

theorem insert_offset_is_used_bytes:
  "(gpNvm_MemoryIndexTable s attrId = 0xFFFF
      \<and> gpNvm_SetAttribute s attrId len (Some buf) = Inr (GPNVM_OK, s1)
    \<longrightarrow> unat (gpNvm_MemoryIndexTable s1 attrId) = used_bytes s)
   \<and> (gpNvm_FileDescriptor s = Open_handle \<and> (\<forall>i. gpNvm_MemoryIndexTable s i = 0xFFFF)
      \<and> length v1 = 20 \<and> a \<noteq> b \<and> length v2 \<le> 255
    \<longrightarrow> (\<exists>t1 t2. gpNvm_SetAttribute s a 20 (Some v1) = Inr (GPNVM_OK, t1)
           \<and> gpNvm_MemoryIndexTable t1 a = 0
           \<and> gpNvm_SetAttribute t1 b (of_nat (length v2)) (Some v2) = Inr (GPNVM_OK, t2)
           \<and> gpNvm_MemoryIndexTable t2 a = 0
           \<and> gpNvm_MemoryIndexTable t2 b = 21))"
proof (intro conjI impI)
  assume "gpNvm_MemoryIndexTable s attrId = 0xFFFF
      \<and> gpNvm_SetAttribute s attrId len (Some buf) = Inr (GPNVM_OK, s1)"
  then have absent: "gpNvm_MemoryIndexTable s attrId = 0xFFFF"
    and ok: "gpNvm_SetAttribute s attrId len (Some buf) = Inr (GPNVM_OK, s1)"
    by simp_all
  from set_ok_insert [OF ok absent] have "gpNvm_MemoryIndexTable s1 attrId = of_nat (used_bytes s)"
    by simp
  then show "unat (gpNvm_MemoryIndexTable s1 attrId) = used_bytes s"
    using unat_used_bytes [OF absent] by simp
next
  assume "gpNvm_FileDescriptor s = Open_handle \<and> (\<forall>i. gpNvm_MemoryIndexTable s i = 0xFFFF)
      \<and> length v1 = 20 \<and> a \<noteq> b \<and> length v2 \<le> 255"
  then have op: "gpNvm_FileDescriptor s = Open_handle"
    and empty: "\<And>i. gpNvm_MemoryIndexTable s i = 0xFFFF"
    and l1: "length v1 = 20" and ab: "a \<noteq> b" and l2: "length v2 \<le> 255"
    by simp_all
  let ?len2 = "of_nat (length v2) :: UInt8"
  have n2: "unat ?len2 = length v2"
    using l2 by (simp add: unat_of_nat)
  define t1 where "t1 = write_tables
      (s\<lparr>gpNvm_AttributesCrcTable :=
           (gpNvm_AttributesCrcTable s)(a := gpNvm_CalculateChecksum v1 20),
         gpNvm_MemoryIndexTable := (gpNvm_MemoryIndexTable s)(a := of_nat 0),
         gpNvm_MemoryCache :=
           memcpy_to ((gpNvm_MemoryCache s)(0 := 20)) (0 + 1) v1 (unat (20 :: UInt8))\<rparr>)"
  have u0: "used_bytes s = 0"
    by (simp add: used_bytes_def empty)
  have b0: "\<forall>i. entry_in_bounds s i"
    by (simp add: entry_in_bounds_def empty)
  have set1: "gpNvm_SetAttribute s a 20 (Some v1) = Inr (GPNVM_OK, t1)"
    unfolding t1_def using op l1 b0 by (simp add: set_insert [OF _ empty] u0 user_memory_size)
  have idx1: "gpNvm_MemoryIndexTable t1 = (\<lambda>i. if i = a then 0 else 0xFFFF)"
    unfolding t1_def by (rule ext) (simp add: empty)
  have present1: "{i. gpNvm_MemoryIndexTable t1 i \<noteq> 0xFFFF} = {a}"
    unfolding idx1 by auto
  have c0: "gpNvm_MemoryCache t1 0 = 20"
    unfolding t1_def by (simp add: memcpy_to_outside)
  have u1: "used_bytes t1 = 21"
    unfolding used_bytes_def present1 by (simp add: idx1 c0)
  have b1: "\<forall>i. entry_in_bounds t1 i"
    unfolding entry_in_bounds_def idx1 by (simp add: user_memory_size)
  have absent1: "gpNvm_MemoryIndexTable t1 b = 0xFFFF"
    using ab by (simp add: idx1)
  have op1: "gpNvm_FileDescriptor t1 = Open_handle"
    unfolding t1_def using op by simp
  have "\<exists>t2. gpNvm_SetAttribute t1 b ?len2 (Some v2) = Inr (GPNVM_OK, t2)"
    using b1 l2 by (simp add: set_insert [OF _ absent1] op1 u1 n2 user_memory_size)
  then obtain t2 where set2: "gpNvm_SetAttribute t1 b ?len2 (Some v2) = Inr (GPNVM_OK, t2)" ..
  from set_ok_insert [OF set2 absent1]
  have "gpNvm_MemoryIndexTable t2 = (gpNvm_MemoryIndexTable t1)(b := of_nat (used_bytes t1))"
    by simp
  then have "gpNvm_MemoryIndexTable t2 a = 0" and "gpNvm_MemoryIndexTable t2 b = 21"
    using ab by (simp_all add: u1 idx1)
  moreover have "gpNvm_MemoryIndexTable t1 a = 0"
    by (simp add: idx1)
  ultimately show "\<exists>t1 t2. gpNvm_SetAttribute s a 20 (Some v1) = Inr (GPNVM_OK, t1)
           \<and> gpNvm_MemoryIndexTable t1 a = 0
           \<and> gpNvm_SetAttribute t1 b (of_nat (length v2)) (Some v2) = Inr (GPNVM_OK, t2)
           \<and> gpNvm_MemoryIndexTable t2 a = 0
           \<and> gpNvm_MemoryIndexTable t2 b = 21"
    using set1 set2 by blast
qed

theorem insert_offset_is_used_bytes_witness:
  "gpNvm_MemoryIndexTable one_record 1 = 0xFFFF
   \<and> used_bytes one_record = 2
   \<and> (\<exists>s1. gpNvm_SetAttribute one_record 1 2 (Some [7, 8]) = Inr (GPNVM_OK, s1)
         \<and> unat (gpNvm_MemoryIndexTable s1 1) = used_bytes one_record)
   \<and> gpNvm_FileDescriptor empty_store = Open_handle
   \<and> (\<forall>i. gpNvm_MemoryIndexTable empty_store i = 0xFFFF)
   \<and> length (map of_nat [0..<20] :: UInt8 list) = 20
   \<and> (1 :: UInt8) \<noteq> 2
   \<and> length [0xAA :: UInt8] \<le> 255
   \<and> (\<exists>t1 t2. gpNvm_SetAttribute empty_store 1 20 (Some (map of_nat [0..<20]))
                  = Inr (GPNVM_OK, t1)
         \<and> gpNvm_MemoryIndexTable t1 1 = 0
         \<and> gpNvm_SetAttribute t1 2 (of_nat (length [0xAA :: UInt8])) (Some [0xAA])
                  = Inr (GPNVM_OK, t2)
         \<and> gpNvm_MemoryIndexTable t2 1 = 0
         \<and> gpNvm_MemoryIndexTable t2 2 = 21)"
proof -
  have absent: "gpNvm_MemoryIndexTable one_record 1 = 0xFFFF"
    by (simp add: one_record_def)
  note u = used_from_loop [OF loop_one_record absent]
  have used: "used_bytes one_record = 2"
    using u by simp
  have "\<exists>s1. gpNvm_SetAttribute one_record 1 2 (Some [7, 8]) = Inr (GPNVM_OK, s1)"
    using u by (simp add: set_insert [OF one_record_facts(1) absent] user_memory_size
        one_record_open)
  then obtain s1 where s1: "gpNvm_SetAttribute one_record 1 2 (Some [7, 8]) = Inr (GPNVM_OK, s1)" ..
  have p1: "unat (gpNvm_MemoryIndexTable s1 1) = used_bytes one_record"
    using insert_offset_is_used_bytes [of one_record 1 2 "[7, 8]" s1] absent s1 by blast
  have p2: "\<exists>t1 t2. gpNvm_SetAttribute empty_store 1 20 (Some (map of_nat [0..<20]))
                  = Inr (GPNVM_OK, t1)
         \<and> gpNvm_MemoryIndexTable t1 1 = 0
         \<and> gpNvm_SetAttribute t1 2 (of_nat (length [0xAA :: UInt8])) (Some [0xAA])
                  = Inr (GPNVM_OK, t2)
         \<and> gpNvm_MemoryIndexTable t2 1 = 0
         \<and> gpNvm_MemoryIndexTable t2 2 = 21"
    using insert_offset_is_used_bytes [of empty_store 1 2 "[7, 8]" s1 "map of_nat [0..<20]" 1 2 "[0xAA]"]
      empty_store_facts
    by simp
  show ?thesis
    using absent used s1 p1 p2 empty_store_facts by auto
qed

text \<open>
  C7. The sequence of the claim, from a process with no file: gpNvm_Init, a
  gpNvm_SetAttribute of one byte under id 1, gpNvm_Uninit, gpNvm_Init. gpNvm_Uninit
  returns \<open>GPNVM_OK\<close> and leaves \<open>gpNvm_FileDescriptor\<close> pointing to the closed stream, so
  the second gpNvm_Init returns \<open>GPNVM_ERROR_ALREADY_INITIALIZED\<close> and reloads nothing.
  gpNvm_GetAttribute then answers from the cache that was never reloaded, and a second
  gpNvm_Uninit writes to the closed stream.
\<close>

theorem init_after_uninit_refused:
  "gpNvm_Init no_file = Inr (GPNVM_OK, fresh_store)
   \<and> gpNvm_SetAttribute fresh_store 1 1 (Some [0xAA]) = Inr (GPNVM_OK, one_stored)
   \<and> gpNvm_Uninit one_stored = Inr (GPNVM_OK, one_stored_closed)
   \<and> gpNvm_FileDescriptor one_stored_closed = Closed_handle
   \<and> gpNvm_Init one_stored_closed
       = Inr (GPNVM_ERROR_ALREADY_INITIALIZED, one_stored_closed)
   \<and> gpNvm_GetAttribute one_stored_closed 1 (Some 0) (Some [0])
       = Inr (GPNVM_OK, Some 1, Some [0xAA])
   \<and> gpNvm_Uninit one_stored_closed = Inl UseAfterClose"
proof -
  have uninit: "gpNvm_Uninit one_stored = Inr (GPNVM_OK, one_stored_closed)"
    unfolding one_stored_closed_def using one_stored_facts(1) by (rule uninit_open)
  have closed: "gpNvm_FileDescriptor one_stored_closed = Closed_handle"
    by (simp add: one_stored_closed_def)
  have init: "gpNvm_Init one_stored_closed
       = Inr (GPNVM_ERROR_ALREADY_INITIALIZED, one_stored_closed)"
    by (simp add: gpNvm_Init_def closed)
  have "gpNvm_GetAttribute one_stored_closed 1 (Some 0) (Some [0])
       = gpNvm_GetAttribute one_stored 1 (Some 0) (Some [0])"
    by (rule get_cong) (simp_all add: one_stored_closed_def one_stored_facts(1))
  also have "\<dots> = Inr (GPNVM_OK, Some 1, Some [0xAA])"
    using one_stored_facts(1)
    by (simp add: get_stored [OF _ one_stored_facts(2,3)] one_stored_facts(4-6) checksum_AA)
  finally have get: "gpNvm_GetAttribute one_stored_closed 1 (Some 0) (Some [0])
       = Inr (GPNVM_OK, Some 1, Some [0xAA])" .
  have again: "gpNvm_Uninit one_stored_closed = Inl UseAfterClose"
    by (simp add: gpNvm_Uninit_def flush_def closed)
  show ?thesis
    using init_no_file set_fresh_store uninit closed init get again by simp
qed

text \<open>
  C8. gpNvm_Init on a file of size zero (or on no file, when one can be created) returns
  \<open>GPNVM_OK\<close>, sets every index entry to \<open>0xFFFF\<close>, every CRC entry to \<open>0xFF\<close> and every
  byte of the cache to \<open>0xFF\<close>, and leaves a file that is exactly the 512 bytes of the index
  table, the 256 bytes of the CRC table and the \<open>GPNVM_MEMORY_SIZE - 768\<close> bytes of the cache,
  in that order, with nothing in front of them.
\<close>

theorem init_empty_backing_file:
  assumes "gpNvm_FileDescriptor s = Null_handle"
    and "file_content s = []"
    and "nvm_file s \<noteq> None \<or> nvm_creatable s"
  shows "\<exists>s'. gpNvm_Init s = Inr (GPNVM_OK, s')
           \<and> gpNvm_FileDescriptor s' = Open_handle
           \<and> (\<forall>i. gpNvm_MemoryIndexTable s' i = 0xFFFF)
           \<and> (\<forall>i. gpNvm_AttributesCrcTable s' i = 0xFF)
           \<and> (\<forall>k. k < GPNVM_USER_MEMORY_SIZE \<longrightarrow> gpNvm_MemoryCache s' k = 0xFF)
           \<and> nvm_file s' = Some (index_table_bytes (gpNvm_MemoryIndexTable s')
                                  @ crc_table_bytes (gpNvm_AttributesCrcTable s')
                                  @ cache_bytes (gpNvm_MemoryCache s'))
           \<and> length (index_table_bytes (gpNvm_MemoryIndexTable s')) = 512
           \<and> length (crc_table_bytes (gpNvm_AttributesCrcTable s')) = 256
           \<and> length (cache_bytes (gpNvm_MemoryCache s')) = GPNVM_MEMORY_SIZE - 768
           \<and> nvm_file s' = Some (replicate GPNVM_MEMORY_SIZE 0xFF)"
proof -
  let ?s1 = "s\<lparr>gpNvm_FileDescriptor := Open_handle, nvm_file := Some []\<rparr>"
  let ?s' = "write_tables (memset_tables ?s1)"
  have init: "gpNvm_Init s = Inr (GPNVM_OK, ?s')"
    using assms by (rule gpNvm_Init_empty)
  have fc: "file_content ?s1 = []"
    by (simp add: file_content_def)
  have written: "nvm_file ?s' = Some (index_table_bytes (gpNvm_MemoryIndexTable ?s')
      @ crc_table_bytes (gpNvm_AttributesCrcTable ?s') @ cache_bytes (gpNvm_MemoryCache ?s'))"
    by (simp add: nvm_file_write_tables fc)
  have cache: "\<And>k. k < GPNVM_USER_MEMORY_SIZE \<Longrightarrow> gpNvm_MemoryCache ?s' k = 0xFF"
    by (simp add: memset_tables_cache)
  have "cache_bytes (gpNvm_MemoryCache ?s') = replicate 1280 0xFF"
    using cache by (rule cache_bytes_filled)
  then have bytes: "nvm_file ?s' = Some (replicate GPNVM_MEMORY_SIZE 0xFF)"
    using written
    by (simp add: index_table_bytes_sentinel crc_table_bytes_default
        replicate_add [symmetric] del: replicate_add)
  show ?thesis
    using init written cache bytes by (intro exI [of _ ?s']) simp
qed

theorem init_empty_backing_file_witness:
  "gpNvm_FileDescriptor no_file = Null_handle \<and> file_content no_file = []
   \<and> nvm_creatable no_file
   \<and> (\<exists>s'. gpNvm_Init no_file = Inr (GPNVM_OK, s')
         \<and> gpNvm_MemoryIndexTable s' 7 = 0xFFFF
         \<and> gpNvm_AttributesCrcTable s' 7 = 0xFF
         \<and> gpNvm_MemoryCache s' 1279 = 0xFF
         \<and> nvm_file s' = Some (replicate GPNVM_MEMORY_SIZE 0xFF))"
proof -
  have h: "gpNvm_FileDescriptor no_file = Null_handle" "file_content no_file = []"
    "nvm_file no_file \<noteq> None \<or> nvm_creatable no_file"
    by (simp_all add: no_file_def file_content_def)
  from init_empty_backing_file [OF h] obtain s' where
    "gpNvm_Init no_file = Inr (GPNVM_OK, s')"
    "\<forall>i. gpNvm_MemoryIndexTable s' i = 0xFFFF"
    "\<forall>i. gpNvm_AttributesCrcTable s' i = 0xFF"
    "\<forall>k. k < GPNVM_USER_MEMORY_SIZE \<longrightarrow> gpNvm_MemoryCache s' k = 0xFF"
    "nvm_file s' = Some (replicate GPNVM_MEMORY_SIZE 0xFF)"
    by blast
  then show ?thesis
    using h(1,2) by (auto simp: no_file_def user_memory_size)
qed

text \<open>
  C9 (as amended). A gpNvm_SetAttribute that returns \<open>GPNVM_OK\<close> for a stored id and bytes that differ
  from the stored value leaves the index table as it was, changes the CRC entry of that
  id only, and changes the cache only at the value bytes of the record, the positions
  \<open>offset + 1\<close> to \<open>offset + length\<close>: the length byte at \<open>offset\<close> and every byte outside
  the record keep their content, and so does the record (offset, length and value) of
  every other id that does not overlap those positions.
\<close>

theorem update_frame:
  assumes "gpNvm_SetAttribute s attrId len (Some buf) = Inr (GPNVM_OK, s1)"
    and "gpNvm_MemoryIndexTable s attrId \<noteq> 0xFFFF"
    and "take (unat len) buf \<noteq> stored_value s attrId"
  shows "gpNvm_MemoryIndexTable s1 = gpNvm_MemoryIndexTable s
     \<and> gpNvm_AttributesCrcTable s1 attrId = gpNvm_CalculateChecksum buf len
     \<and> (\<forall>j. j \<noteq> attrId \<longrightarrow> gpNvm_AttributesCrcTable s1 j = gpNvm_AttributesCrcTable s j)
     \<and> stored_value s1 attrId = take (unat len) buf
     \<and> stored_length s1 attrId = stored_length s attrId
     \<and> (\<forall>k. k \<le> stored_offset s attrId \<or> stored_offset s attrId + unat len < k
            \<longrightarrow> gpNvm_MemoryCache s1 k = gpNvm_MemoryCache s k)
     \<and> (\<forall>j. j \<noteq> attrId
             \<and> (stored_offset s j + unat (stored_length s j) \<le> stored_offset s attrId
                \<or> stored_offset s attrId + unat len < stored_offset s j)
            \<longrightarrow> stored_offset s1 j = stored_offset s j
              \<and> stored_length s1 j = stored_length s j
              \<and> stored_value s1 j = stored_value s j)"
proof -
  note upd = set_ok_update [OF assms(1,2)]
  note st = set_ok_stored [OF assms(1)]
  let ?off = "stored_offset s attrId"
  from upd assms(3) have s1: "s1 = write_tables
      (s\<lparr>gpNvm_MemoryCache := memcpy_to (gpNvm_MemoryCache s) (?off + 1) buf (unat len),
         gpNvm_AttributesCrcTable :=
           (gpNvm_AttributesCrcTable s)(attrId := gpNvm_CalculateChecksum buf len)\<rparr>)"
    by simp
  have idx: "gpNvm_MemoryIndexTable s1 = gpNvm_MemoryIndexTable s"
    by (simp add: s1)
  have crc: "gpNvm_AttributesCrcTable s1
      = (gpNvm_AttributesCrcTable s)(attrId := gpNvm_CalculateChecksum buf len)"
    by (simp add: s1)
  have cache: "gpNvm_MemoryCache s1 = memcpy_to (gpNvm_MemoryCache s) (?off + 1) buf (unat len)"
    by (simp add: s1)
  have outside: "gpNvm_MemoryCache s1 k = gpNvm_MemoryCache s k"
    if "k \<le> ?off \<or> ?off + unat len < k" for k
    unfolding cache using that by (intro memcpy_to_outside) auto
  have off: "stored_offset s1 j = stored_offset s j" for j
    by (simp add: stored_offset_def idx)
  have other: "stored_length s1 j = stored_length s j \<and> stored_value s1 j = stored_value s j"
    if "stored_offset s j + unat (stored_length s j) \<le> ?off \<or> ?off + unat len < stored_offset s j"
    for j
  proof -
    have l: "stored_length s1 j = stored_length s j"
      unfolding stored_length_def off using that by (intro outside) auto
    have "region (gpNvm_MemoryCache s1) (stored_offset s j + 1) (unat (stored_length s j))
        = region (gpNvm_MemoryCache s) (stored_offset s j + 1) (unat (stored_length s j))"
      using that by (intro region_cong outside) auto
    then show ?thesis
      using l by (simp add: stored_value_def off)
  qed
  show ?thesis
    using idx crc st(4,5) upd outside off other by simp
qed

theorem update_frame_witness:
  "gpNvm_MemoryIndexTable one_record 0 \<noteq> 0xFFFF
   \<and> take (unat (1 :: UInt8)) [0xBB] \<noteq> stored_value one_record 0
   \<and> (\<exists>s1. gpNvm_SetAttribute one_record 0 1 (Some [0xBB]) = Inr (GPNVM_OK, s1)
         \<and> gpNvm_MemoryIndexTable s1 = gpNvm_MemoryIndexTable one_record
         \<and> gpNvm_AttributesCrcTable s1 0 = 0xF9
         \<and> gpNvm_AttributesCrcTable s1 1 = gpNvm_AttributesCrcTable one_record 1
         \<and> stored_value s1 0 = [0xBB]
         \<and> stored_length s1 0 = 1
         \<and> gpNvm_MemoryCache s1 0 = gpNvm_MemoryCache one_record 0
         \<and> gpNvm_MemoryCache s1 2 = gpNvm_MemoryCache one_record 2)"
proof -
  have diff: "take (unat (1 :: UInt8)) [0xBB] \<noteq> stored_value one_record 0"
    by (simp add: one_record_facts)
  have "\<exists>s1. gpNvm_SetAttribute one_record 0 1 (Some [0xBB]) = Inr (GPNVM_OK, s1)"
    using one_record_facts(3)
    by (simp add: set_update [OF one_record_facts(1,2)] one_record_facts(4,5)
        record_in_bounds_def one_record_open)
  then obtain s1 where s1: "gpNvm_SetAttribute one_record 0 1 (Some [0xBB]) = Inr (GPNVM_OK, s1)" ..
  note fr = update_frame [OF s1 one_record_facts(2) diff]
  have off: "stored_offset one_record 0 = 0"
    by (simp add: stored_offset_def one_record_def)
  from fr have "gpNvm_MemoryIndexTable s1 = gpNvm_MemoryIndexTable one_record"
    and "gpNvm_AttributesCrcTable s1 0 = 0xF9"
    and "gpNvm_AttributesCrcTable s1 1 = gpNvm_AttributesCrcTable one_record 1"
    and "stored_value s1 0 = [0xBB]"
    and "stored_length s1 0 = 1"
    and "gpNvm_MemoryCache s1 0 = gpNvm_MemoryCache one_record 0"
    and "gpNvm_MemoryCache s1 2 = gpNvm_MemoryCache one_record 2"
    by (simp_all add: checksum_BB one_record_facts off)
  with s1 one_record_facts(2) diff show ?thesis by blast
qed

text \<open>
  C9 as stated fails where the record of another id overlaps the value bytes: in the store
  that gives the ids 0 and 1 the same offset, the update of id 0 returns \<open>GPNVM_OK\<close> and
  the value of id 1 has changed from \<open>0xAA\<close> to \<open>0xBB\<close>, so that reading id 1 returns
  \<open>GPNVM_ERROR_CORRUPTED_ATTRIBUTE\<close>.
\<close>

theorem update_changes_overlapping_record:
  "gpNvm_FileDescriptor shared_record = Open_handle
   \<and> gpNvm_MemoryIndexTable shared_record 0 \<noteq> 0xFFFF
   \<and> gpNvm_MemoryIndexTable shared_record 1 \<noteq> 0xFFFF
   \<and> stored_value shared_record 0 = [0xAA]
   \<and> stored_value shared_record 1 = [0xAA]
   \<and> gpNvm_SetAttribute shared_record 0 1 (Some [0xBB]) = Inr (GPNVM_OK, shared_record_updated)
   \<and> stored_value shared_record_updated 1 = [0xBB]
   \<and> gpNvm_GetAttribute shared_record_updated 1 (Some 0) (Some [0])
       = Inr (GPNVM_ERROR_CORRUPTED_ATTRIBUTE, Some 0, Some [0])"
proof -
  have op: "gpNvm_FileDescriptor shared_record \<noteq> Null_handle"
    by (simp add: shared_record_facts)
  have set: "gpNvm_SetAttribute shared_record 0 1 (Some [0xBB])
      = Inr (GPNVM_OK, shared_record_updated)"
    by (simp add: set_update [OF op shared_record_facts(2)] shared_record_facts(1,4-6)
        user_memory_size checksum_BB shared_record_updated_def)
  have get: "gpNvm_GetAttribute shared_record_updated 1 (Some 0) (Some [0])
       = Inr (GPNVM_ERROR_CORRUPTED_ATTRIBUTE, Some 0, Some [0])"
    by (simp add: get_stored [OF shared_record_updated_facts(1-3)]
        shared_record_updated_facts(4-6) checksum_BB)
  show ?thesis
    using shared_record_facts set get shared_record_updated_facts(5) by simp
qed

text \<open>
  C10. gpNvm_CalculateChecksum over zero bytes is \<open>0xFF\<close>, the value gpNvm_Init writes
  into every CRC entry of an empty store: each entry of a freshly initialised CRC table
  equals the checksum of the empty value.
\<close>

theorem checksum_of_empty_is_default:
  assumes "gpNvm_FileDescriptor s = Null_handle"
    and "file_content s = []"
    and "nvm_file s \<noteq> None \<or> nvm_creatable s"
  shows "gpNvm_CalculateChecksum ptr 0 = 0xFF
       \<and> (\<exists>s'. gpNvm_Init s = Inr (GPNVM_OK, s')
             \<and> (\<forall>attrId. gpNvm_AttributesCrcTable s' attrId = gpNvm_CalculateChecksum ptr 0))"
  using gpNvm_Init_empty [OF assms] by (simp add: checksum_empty)

theorem checksum_of_empty_is_default_witness:
  "gpNvm_FileDescriptor no_file = Null_handle \<and> file_content no_file = []
   \<and> nvm_creatable no_file
   \<and> gpNvm_CalculateChecksum [] 0 = 0xFF
   \<and> (\<exists>s'. gpNvm_Init no_file = Inr (GPNVM_OK, s')
         \<and> gpNvm_AttributesCrcTable s' 3 = gpNvm_CalculateChecksum [] 0)"
proof -
  have h: "gpNvm_FileDescriptor no_file = Null_handle" "file_content no_file = []"
    "nvm_file no_file \<noteq> None \<or> nvm_creatable no_file"
    by (simp_all add: no_file_def file_content_def)
  show ?thesis
    using h(1,2) checksum_of_empty_is_default [OF h, of "[]"]
    by (auto simp: no_file_def)
qed

end
